theory Spec2Isabelle
  imports Main "HOL-Library.Sublist" "HOL-Library.Multiset"
begin

section \<open>Strings of the host language\<close>

text \<open>
  A JavaScript string is a sequence of code units; here it is a \<^typ>\<open>string\<close>, one
  \<^typ>\<open>char\<close> for each code unit. Every literal of the source is ASCII. The built-in
  string methods the source calls are written out as list functions.
\<close>

text \<open>\<^verbatim>\<open>s.startsWith(p)\<close>\<close>

fun js_startsWith :: "string \<Rightarrow> string \<Rightarrow> bool" where
  "js_startsWith s [] = True"
| "js_startsWith [] (p # ps) = False"
| "js_startsWith (c # cs) (p # ps) = (c = p \<and> js_startsWith cs ps)"

text \<open>\<^verbatim>\<open>s.includes(p)\<close>: \<open>p\<close> starts at some offset of \<open>s\<close>.\<close>

fun js_includes :: "string \<Rightarrow> string \<Rightarrow> bool" where
  "js_includes [] p = js_startsWith [] p"
| "js_includes (c # cs) p = (js_startsWith (c # cs) p \<or> js_includes cs p)"

text \<open>\<^verbatim>\<open>s.endsWith(p)\<close>\<close>

definition js_endsWith :: "string \<Rightarrow> string \<Rightarrow> bool" where
  "js_endsWith s p = js_startsWith (rev s) (rev p)"

text \<open>
  \<^verbatim>\<open>s.replace(pat, rep)\<close> with a string pattern: only the first occurrence of
  \<open>pat\<close> is replaced.
\<close>

fun js_replace :: "string \<Rightarrow> string \<Rightarrow> string \<Rightarrow> string" where
  "js_replace [] pat rep = (if pat = [] then rep else [])"
| "js_replace (c # cs) pat rep =
     (if js_startsWith (c # cs) pat then rep @ drop (length pat) (c # cs)
      else c # js_replace cs pat rep)"

text \<open>
  \<^verbatim>\<open>s.trim()\<close> removes white space and line terminators at both ends. Of the
  code units ECMAScript counts as such, these are the ones a \<^typ>\<open>char\<close> holds: TAB, LF,
  VT, FF, CR, SPACE and NBSP.
\<close>

definition isWhiteSpace :: "char \<Rightarrow> bool" where
  "isWhiteSpace c = (c \<in> {CHR 0x09, CHR 0x0A, CHR 0x0B, CHR 0x0C, CHR 0x0D, CHR 0x20, CHR 0xA0})"

definition js_trim :: "string \<Rightarrow> string" where
  "js_trim s = rev (dropWhile isWhiteSpace (rev (dropWhile isWhiteSpace s)))"

text \<open>\<^verbatim>\<open>s.split('/')\<close>: the pieces between the separators; never empty.\<close>

fun js_split :: "string \<Rightarrow> char \<Rightarrow> string list" where
  "js_split [] sep = [[]]"
| "js_split (c # cs) sep =
     (if c = sep then [] # js_split cs sep
      else (case js_split cs sep of
              [] \<Rightarrow> [[c]]
            | piece # pieces \<Rightarrow> (c # piece) # pieces))"

text \<open>\<^verbatim>\<open>s.substring(a, b)\<close> for \<open>0 \<le> a \<le> b\<close>; both ends are clamped to the length.\<close>

definition substring :: "'a list \<Rightarrow> nat \<Rightarrow> nat \<Rightarrow> 'a list" where
  "substring s a b = take (min b (length s) - min a (length s)) (drop (min a (length s)) s)"

section \<open>Parsing a repository address\<close>

record RepoInfo =
  owner :: string
  name :: string
  url :: string
  defaultBranch :: "string option"

text \<open>
  The regular expression \<^verbatim>\<open>/github\.com\/([^\/]+)\/([^\/]+)/\<close>. At one offset:
  the literal \<^verbatim>\<open>github.com/\<close>, a non-empty run of characters other than the slash, a
  slash, and a second such run. Both runs are greedy, and a shorter first run could
  only be followed by a character that is not a slash, so the longest run is the only
  candidate.
\<close>

definition notSlash :: "char \<Rightarrow> bool" where
  "notSlash c = (c \<noteq> CHR ''/'')"

definition match_at :: "string \<Rightarrow> (string \<times> string) option" where
  "match_at s =
     (if js_startsWith s ''github.com/'' then
        (let r = drop (length ''github.com/'') s;
             g1 = takeWhile notSlash r;
             r1 = dropWhile notSlash r
         in if g1 = [] then None
            else (case r1 of
                    [] \<Rightarrow> None
                  | c # r2 \<Rightarrow>
                      (let g2 = takeWhile notSlash r2
                       in if g2 = [] then None else Some (g1, g2))))
      else None)"

text \<open>\<^verbatim>\<open>s.match(regex)\<close>: the match at the leftmost offset that has one.\<close>

fun regex_match :: "string \<Rightarrow> (string \<times> string) option" where
  "regex_match [] = match_at []"
| "regex_match (c # cs) =
     (case match_at (c # cs) of
        Some m \<Rightarrow> Some m
      | None \<Rightarrow> regex_match cs)"

definition parseGithubUrl :: "string \<Rightarrow> RepoInfo option" where
  "parseGithubUrl u =
     (let trimmed = js_trim u
      in case regex_match trimmed of
           Some (g1, g2) \<Rightarrow>
             Some \<lparr>owner = g1, name = js_replace g2 ''.git'' [], url = trimmed,
                   defaultBranch = None\<rparr>
         | None \<Rightarrow> None)"

text \<open>
  The pattern \<^verbatim>\<open>github.com/<owner>/<name>\<close> as a property of a string: at offset
  \<open>k\<close> stands the literal, then a non-empty \<open>g1\<close> free of slashes, a slash, and a
  non-empty \<open>g2\<close> free of slashes.
\<close>

definition pattern_at :: "string \<Rightarrow> nat \<Rightarrow> string \<Rightarrow> string \<Rightarrow> bool" where
  "pattern_at s k g1 g2 =
     (k \<le> length s \<and> g1 \<noteq> [] \<and> g2 \<noteq> [] \<and> CHR ''/'' \<notin> set g1 \<and> CHR ''/'' \<notin> set g2 \<and>
      (\<exists>post. drop k s = ''github.com/'' @ g1 @ ''/'' @ g2 @ post))"

section \<open>The GitHub service\<close>

text \<open>A thrown \<^verbatim>\<open>Error\<close> is a value carrying its message.\<close>

datatype error = Error string

text \<open>
  \<^verbatim>\<open>arr.sort(cmp)\<close>. The host's sort is stable, so for a comparator that orders
  by a key the result is that of any stable sort; it is written as a stable insertion
  sort: an element goes in front of the first element it does not compare greater
  than.
\<close>

fun insert_by :: "('a \<Rightarrow> 'a \<Rightarrow> int) \<Rightarrow> 'a \<Rightarrow> 'a list \<Rightarrow> 'a list" where
  "insert_by cmp x [] = [x]"
| "insert_by cmp x (y # ys) =
     (if cmp x y \<le> 0 then x # y # ys else y # insert_by cmp x ys)"

definition js_sort :: "('a \<Rightarrow> 'a \<Rightarrow> int) \<Rightarrow> 'a list \<Rightarrow> 'a list" where
  "js_sort cmp xs = foldr (insert_by cmp) xs []"

text \<open>
  What \<^verbatim>\<open>fetch\<close> gives for one request: a rejection, a response that is not ok
  (status and status text), or the JSON body of an ok response.
\<close>

datatype 'a http_response =
    Rejected string
  | NotOk nat string
  | Ok 'a

definition fetchJson :: "'a http_response \<Rightarrow> error + 'a" where
  "fetchJson response =
     (case response of
        Rejected msg \<Rightarrow> Inl (Error msg)
      | NotOk status statusText \<Rightarrow>
          (if status = 403 then Inl (Error ''GitHub API rate limit exceeded.'')
           else if status = 404 then Inl (Error ''Resource not found.'')
           else Inl (Error (''GitHub API error: '' @ statusText)))
      | Ok body \<Rightarrow> Inr body)"

text \<open>
  One entry of a recursive tree listing, its fields \<^verbatim>\<open>path\<close>, \<^verbatim>\<open>type\<close> and
  \<^verbatim>\<open>size\<close> under the prefix \<open>item\<close>; and the unit handed to the analysis stages,
  where \<open>size_field\<close> is the field \<^verbatim>\<open>size\<close>.
\<close>

record TreeItem =
  item_path :: string
  item_type :: string
  item_size :: nat

record FileExcerpt =
  path :: string
  excerpt :: string
  size_field :: nat

text \<open>
  The GitHub REST API as the service sees it, one function for each endpoint, from the
  request address to what \<^verbatim>\<open>fetch\<close> gives. The \<^verbatim>\<open>content\<close> and
  \<^verbatim>\<open>default_branch\<close> fields of a body may be absent. \<open>b64DecodeUnicode\<close> stands for
  the service's decoder of the same name, built on the host's \<^verbatim>\<open>atob\<close> and
  \<^verbatim>\<open>decodeURIComponent\<close>; it throws on input that is not base64.
  \<open>tree_settles_first\<close> says whether the response to the tree request arrives before
  the response to the languages request, which are in flight together.
\<close>

record github =
  get_repo :: "string \<Rightarrow> string option http_response"
  get_readme :: "string \<Rightarrow> string option http_response"
  get_languages :: "string \<Rightarrow> (string \<times> nat) list http_response"
  get_tree :: "string \<Rightarrow> TreeItem list option http_response"
  get_contents :: "string \<Rightarrow> string option http_response"
  b64DecodeUnicode :: "string \<Rightarrow> error + string"
  tree_settles_first :: bool

definition GITHUB_API_BASE :: string where
  "GITHUB_API_BASE = ''https://api.github.com/repos''"

text \<open>
  \<^verbatim>\<open>b64DecodeUnicode(fileData.content)\<close>: on an absent field the decoder's
  \<^verbatim>\<open>str.replace\<close> throws.
\<close>

definition decode_content :: "github \<Rightarrow> string option \<Rightarrow> error + string" where
  "decode_content gh content =
     (case content of
        None \<Rightarrow> Inl (Error ''TypeError'')
      | Some str \<Rightarrow> b64DecodeUnicode gh str)"

definition fetchRepoReadme :: "github \<Rightarrow> RepoInfo \<Rightarrow> error + string" where
  "fetchRepoReadme gh repo =
     (let endpoint = GITHUB_API_BASE @ ''/'' @ owner repo @ ''/'' @ name repo @ ''/readme''
      in case fetchJson (get_readme gh endpoint) of
           Inl e \<Rightarrow> Inl e
         | Inr content \<Rightarrow>
             (if content = None \<or> content = Some []
              then Inl (Error ''Repository empty or unreadable.'')
              else decode_content gh content))"

definition fetchRepoDetails :: "github \<Rightarrow> RepoInfo \<Rightarrow> error + RepoInfo" where
  "fetchRepoDetails gh repo =
     (let endpoint = GITHUB_API_BASE @ ''/'' @ owner repo @ ''/'' @ name repo
      in case fetchJson (get_repo gh endpoint) of
           Inl e \<Rightarrow> Inl e
         | Inr default_branch \<Rightarrow> Inr (repo\<lparr>defaultBranch := default_branch\<rparr>))"

definition fetchRepoLanguages :: "github \<Rightarrow> RepoInfo \<Rightarrow> error + (string \<times> nat) list" where
  "fetchRepoLanguages gh repo =
     (let endpoint = GITHUB_API_BASE @ ''/'' @ owner repo @ ''/'' @ name repo @ ''/languages''
      in fetchJson (get_languages gh endpoint))"

definition fetchFullFileContent :: "github \<Rightarrow> RepoInfo \<Rightarrow> string \<Rightarrow> string" where
  "fetchFullFileContent gh repo p =
     (let contentUrl =
            GITHUB_API_BASE @ ''/'' @ owner repo @ ''/'' @ name repo @ ''/contents/'' @ p
      in case fetchJson (get_contents gh contentUrl) of
           Inl e \<Rightarrow> []
         | Inr content \<Rightarrow>
             (if content = None \<or> content = Some [] then []
              else (case decode_content gh content of
                      Inl e \<Rightarrow> []
                    | Inr text \<Rightarrow> text)))"

definition targets :: "string list" where
  "targets =
     [''package.json'', ''package-lock.json'', ''requirements.txt'', ''pyproject.toml'',
      ''setup.py'', ''Gemfile'', ''go.mod'', ''Cargo.toml'', ''Dockerfile'',
      ''docker-compose.yml'', ''Makefile'']"

definition dependencyFile :: "github \<Rightarrow> RepoInfo \<Rightarrow> string \<Rightarrow> FileExcerpt option" where
  "dependencyFile gh repo target =
     (let content = fetchFullFileContent gh repo target
      in if content \<noteq> []
         then Some \<lparr>path = target, excerpt = substring content 0 3000,
                     size_field = length content\<rparr>
         else None)"

definition fetchDependencyFiles :: "github \<Rightarrow> RepoInfo \<Rightarrow> FileExcerpt list" where
  "fetchDependencyFiles gh repo =
     (let files = map (dependencyFile gh repo) targets
      in [f. Some f \<leftarrow> files])"

subsection \<open>Selecting the files to read\<close>

definition interestingExtensions :: "string list" where
  "interestingExtensions =
     [''.js'', ''.jsx'', ''.ts'', ''.tsx'', ''.py'', ''.go'', ''.rs'', ''.java'', ''.c'',
      ''.cpp'', ''.rb'', ''.php'', ''.json'', ''.toml'', ''.yaml'', ''.yml'', ''.md'']"

definition excludePatterns :: "string list" where
  "excludePatterns =
     [''node_modules'', ''dist'', ''build'', ''coverage'', ''package-lock.json'',
      ''yarn.lock'', ''.png'', ''.jpg'', ''.jpeg'', ''.gif'', ''.svg'', ''.ico'', ''.git/'']"

text \<open>The callback of \<^verbatim>\<open>treeData.tree.filter\<close>.\<close>

definition isInteresting :: "TreeItem \<Rightarrow> bool" where
  "isInteresting item =
     (if item_type item \<noteq> ''blob'' then False
      else if list_ex (\<lambda>p. js_includes (item_path item) p) excludePatterns then False
      else (let hasExtension =
                  list_ex (\<lambda>ext. js_endsWith (item_path item) ext) interestingExtensions;
                isConfig =
                  List.member [''Dockerfile'', ''Makefile'', ''Gemfile'']
                    (last (js_split (item_path item) CHR ''/''))
            in hasExtension \<or> isConfig))"

definition scoreFile :: "string \<Rightarrow> int" where
  "scoreFile p =
     (let score = 0;
          score = (if js_startsWith p ''src/'' then score + 10 else score);
          score = (if js_startsWith p ''app/'' then score + 10 else score);
          score = (if js_startsWith p ''lib/'' then score + 8 else score);
          score = (if js_includes p ''main'' then score + 5 else score);
          score = (if js_includes p ''index'' then score + 5 else score);
          score = (if js_includes p ''server'' then score + 5 else score);
          score = (if js_includes p ''App'' then score + 5 else score);
          score = (if length (js_split p CHR ''/'') < 3 then score + 2 else score)
      in score)"

definition allFiles :: "TreeItem list \<Rightarrow> TreeItem list" where
  "allFiles tree = filter isInteresting tree"

definition sortedFiles :: "TreeItem list \<Rightarrow> TreeItem list" where
  "sortedFiles tree =
     js_sort (\<lambda>a b. scoreFile (item_path b) - scoreFile (item_path a)) (allFiles tree)"

definition topFiles :: "TreeItem list \<Rightarrow> TreeItem list" where
  "topFiles tree = take 12 (sortedFiles tree)"

text \<open>
  The body of the \<^verbatim>\<open>map\<close> over the top files. Inside its \<^verbatim>\<open>try\<close> the content
  is fetched and decoded, then cut at 500 code units with a marker appended; any
  failure gives the placeholder excerpt.
\<close>

definition fetchRawContent :: "github \<Rightarrow> RepoInfo \<Rightarrow> string \<Rightarrow> error + string" where
  "fetchRawContent gh repo p =
     (let contentUrl =
            GITHUB_API_BASE @ ''/'' @ owner repo @ ''/'' @ name repo @ ''/contents/'' @ p
      in case fetchJson (get_contents gh contentUrl) of
           Inl e \<Rightarrow> Inl e
         | Inr content \<Rightarrow> decode_content gh content)"

definition readExcerpt :: "github \<Rightarrow> RepoInfo \<Rightarrow> TreeItem \<Rightarrow> FileExcerpt" where
  "readExcerpt gh repo file =
     (case fetchRawContent gh repo (item_path file) of
        Inr rawContent \<Rightarrow>
          (let limit = 500;
               excerpt = (if length rawContent > limit
                          then substring rawContent 0 limit @ ''... [truncated]''
                          else rawContent)
           in \<lparr>path = item_path file, excerpt = excerpt, size_field = item_size file\<rparr>)
      | Inl e \<Rightarrow>
          \<lparr>path = item_path file, excerpt = ''(Read failed)'',
           size_field = item_size file\<rparr>)"

definition fetchTopRepoFiles :: "github \<Rightarrow> RepoInfo \<Rightarrow> error + FileExcerpt list" where
  "fetchTopRepoFiles gh repo =
     (case defaultBranch repo of
        None \<Rightarrow> Inl (Error ''Default branch not found'')
      | Some branch \<Rightarrow>
          (if branch = [] then Inl (Error ''Default branch not found'')
           else
             (let treeUrl =
                    GITHUB_API_BASE @ ''/'' @ owner repo @ ''/'' @ name repo @
                    ''/git/trees/'' @ branch @ ''?recursive=1''
              in case fetchJson (get_tree gh treeUrl) of
                   Inl e \<Rightarrow> Inl e
                 | Inr None \<Rightarrow> Inr []
                 | Inr (Some tree) \<Rightarrow>
                     (let excerpts = map (readExcerpt gh repo) (topFiles tree)
                      in Inr (filter (\<lambda>f. excerpt f \<noteq> ''(Read failed)'') excerpts)))))"

section \<open>The Gemini service\<close>

subsection \<open>The shapes of the structured responses\<close>

text \<open>
  The string unions of the source's types are datatypes; \<open>kind_text\<close> gives the string a
  member of the \<^verbatim>\<open>kind\<close> union is at run time. Field names that several interfaces
  share, or that are reserved words here, carry a prefix: \<open>sym_file\<close> is the field
  \<^verbatim>\<open>file\<close> of a symbol, \<open>setup_notes\<close> the field \<^verbatim>\<open>notes\<close> of a setup, and so on.
  An optional field is an \<^typ>\<open>'a option\<close>.
\<close>

datatype symbol_kind = SymFunction | SymClass | SymVariable | SymInterface | SymType | SymOther

fun kind_text :: "symbol_kind \<Rightarrow> string" where
  "kind_text SymFunction = ''function''"
| "kind_text SymClass = ''class''"
| "kind_text SymVariable = ''variable''"
| "kind_text SymInterface = ''interface''"
| "kind_text SymType = ''type''"
| "kind_text SymOther = ''other''"

datatype level = High | Medium | Low

record AnalysisResult =
  summary :: string
  runtime :: string

record ComponentInfo =
  comp_name :: string
  comp_path :: string
  role :: string
  comp_confidence :: "level option"
  comp_evidence :: "string option"

record EntryPointInfo =
  ep_path :: string
  reason :: string

record ArchitectureAnalysis =
  arch_summary :: string
  arch_runtime :: string
  components :: "ComponentInfo list"
  entry_points :: "EntryPointInfo list"

record SymbolDefinition =
  sym_file :: string
  symbol :: string
  kind :: symbol_kind
  signature :: string
  description :: string
  dependencies :: "string list"
  sym_notes :: "string option"
  sym_confidence :: "level option"

record SetupDetection =
  install :: "string list"
  test :: "string list"
  env :: "(string \<times> string) list"
  setup_notes :: string
  setup_confidence :: "level option"
  setup_evidence :: "string option"

record Pitfall =
  issue :: string
  severity :: level
  remediation :: string

text \<open>
  A value as \<^verbatim>\<open>JSON.parse\<close> returns it. A number is given by the text that
  converting it to a string yields, and an object by the list of its properties, each
  name once.
\<close>

datatype json =
    JNull
  | JBool bool
  | JNumber string
  | JString string
  | JArray "json list"
  | JObject "(string \<times> json) list"

text \<open>
  The \<^verbatim>\<open>results\<close> of a \<^verbatim>\<open>StaticAnalysisData\<close>: a path with its symbols. The symbols
  are what the aggregator returns, parsed values that the source casts to symbol
  records without a check.
\<close>

type_synonym StaticResults = "(string \<times> json list) list"

subsection \<open>The model and the host's JSON parser\<close>

text \<open>
  A request to the model is the stage's instruction with values interpolated; the fixed
  wording is left out and a prompt is the stage together with the interpolated values.
\<close>

datatype prompt =
    SummaryPrompt string
  | ArchitecturePrompt "FileExcerpt list"
  | SymbolsPrompt string nat string
  | SetupPrompt "FileExcerpt list"
  | PitfallsPrompt "FileExcerpt list"
  | WikiPrompt string "ArchitectureAnalysis option" StaticResults "string list"

text \<open>
  \<open>generateContent\<close> is \<^verbatim>\<open>ai.models.generateContent\<close>: the promise rejects, or it
  resolves to a response whose \<^verbatim>\<open>text\<close> may be undefined. The other fields are
  \<^verbatim>\<open>JSON.parse(text)\<close>, which throws on text that is not JSON. Where the source only
  hands the parsed value on, the field gives it at the type \<open>T\<close> of the cast
  \<^verbatim>\<open>as T\<close>; the aggregator reads the properties of what it parsed, so there the field
  gives the value itself.
\<close>

record gemini =
  generateContent :: "prompt \<Rightarrow> error + string option"
  JSON_parse_AnalysisResult :: "string \<Rightarrow> error + AnalysisResult"
  JSON_parse_ArchitectureAnalysis :: "string \<Rightarrow> error + ArchitectureAnalysis"
  JSON_parse_SymbolDefinitions :: "string \<Rightarrow> error + json"
  JSON_parse_SetupDetection :: "string \<Rightarrow> error + SetupDetection"
  JSON_parse_Pitfalls :: "string \<Rightarrow> error + Pitfall list"

text \<open>
  Promises and exceptions: a computation is its settled value, \<open>Inl\<close> the error thrown
  or rejected with. \<open>await\<close> passes a value on and propagates an error, and
  \<open>try_catch\<close> hands an error to the handler. \<open>catching\<close> is a \<^verbatim>\<open>try\<close> whose
  \<^verbatim>\<open>catch\<close> clause returns a value: an asynchronous function with such a body is
  always fulfilled.
\<close>

definition await :: "error + 'a \<Rightarrow> ('a \<Rightarrow> error + 'b) \<Rightarrow> error + 'b" where
  "await p k = (case p of Inl e \<Rightarrow> Inl e | Inr v \<Rightarrow> k v)"

definition try_catch :: "error + 'a \<Rightarrow> (error \<Rightarrow> error + 'a) \<Rightarrow> error + 'a" where
  "try_catch body handler = (case body of Inl e \<Rightarrow> handler e | Inr v \<Rightarrow> Inr v)"

definition catching :: "error + 'a \<Rightarrow> (error \<Rightarrow> 'a) \<Rightarrow> 'a" where
  "catching body handler = (case body of Inl e \<Rightarrow> handler e | Inr v \<Rightarrow> v)"

text \<open>\<^verbatim>\<open>!text\<close>: the text is undefined or empty.\<close>

definition no_text :: "string option \<Rightarrow> bool" where
  "no_text text = (case text of None \<Rightarrow> True | Some t \<Rightarrow> t = [])"

definition text_of :: "string option \<Rightarrow> string" where
  "text_of text = (case text of None \<Rightarrow> [] | Some t \<Rightarrow> t)"

subsection \<open>The stages\<close>

definition summarizeRepo :: "gemini \<Rightarrow> string \<Rightarrow> error + AnalysisResult" where
  "summarizeRepo ai readmeContent =
     (let truncatedContent =
            (if length readmeContent > 8000
             then substring readmeContent 0 8000 @ CHR 0x0A # ''...[Truncated]...''
             else readmeContent)
      in try_catch
           (await (generateContent ai (SummaryPrompt truncatedContent)) (\<lambda>text.
              if no_text text then Inl (Error ''No response generated from Gemini.'')
              else JSON_parse_AnalysisResult ai (text_of text)))
           (\<lambda>error. Inl (Error ''Failed to analyze the repository content.'')))"

definition analyzeArchitecture :: "gemini \<Rightarrow> FileExcerpt list \<Rightarrow> error + ArchitectureAnalysis" where
  "analyzeArchitecture ai files =
     try_catch
       (await (generateContent ai (ArchitecturePrompt files)) (\<lambda>text.
          if no_text text then Inl (Error ''No response from Gemini.'')
          else JSON_parse_ArchitectureAnalysis ai (text_of text)))
       (\<lambda>error. Inl (Error ''Failed to analyze architecture.''))"

subsection \<open>The symbol aggregator\<close>

definition CHUNK_SIZE :: nat where
  "CHUNK_SIZE = 2500"

text \<open>The \<^verbatim>\<open>for\<close> loop that pushes the chunks, from offset \<open>i\<close> on.\<close>

function chunk_loop :: "nat \<Rightarrow> string \<Rightarrow> string list \<Rightarrow> string list" where
  "chunk_loop i fullContent chunks =
     (if i < length fullContent
      then chunk_loop (i + 2000) fullContent
             (chunks @ [substring fullContent i (min (i + CHUNK_SIZE) (length fullContent))])
      else chunks)"
  by pat_completeness auto
termination
  by (relation "measure (\<lambda>(i, fullContent, chunks). length fullContent - i)") auto

declare chunk_loop.simps [simp del]

definition chunksToProcess :: "string \<Rightarrow> string list" where
  "chunksToProcess fullContent = take 3 (chunk_loop 0 fullContent [])"

text \<open>
  The callback of \<^verbatim>\<open>chunksToProcess.map\<close>: one window's extraction. Its whole body
  is a \<^verbatim>\<open>try\<close> that returns the empty array from its \<^verbatim>\<open>catch\<close> clause, and
  what it returns otherwise is the parsed text, whatever value that is.
\<close>

definition extractChunk :: "gemini \<Rightarrow> string \<Rightarrow> string \<Rightarrow> nat \<Rightarrow> json" where
  "extractChunk ai p chunk index =
     catching
       (await (generateContent ai (SymbolsPrompt p (index + 1) chunk)) (\<lambda>text.
          if no_text text then Inr (JArray [])
          else JSON_parse_SymbolDefinitions ai (text_of text)))
       (\<lambda>e. JArray [])"

definition chunkPromises :: "gemini \<Rightarrow> string \<Rightarrow> string \<Rightarrow> json list" where
  "chunkPromises ai p fullContent =
     map (\<lambda>(index, chunk). extractChunk ai p chunk index)
       (enumerate 0 (chunksToProcess fullContent))"

text \<open>
  \<^verbatim>\<open>results.flat()\<close>: the elements of each result that is an array, and each other
  result itself.
\<close>

definition js_flat :: "json list \<Rightarrow> json list" where
  "js_flat results = concat (map (\<lambda>r. case r of JArray elements \<Rightarrow> elements | _ \<Rightarrow> [r]) results)"

text \<open>
  \<^verbatim>\<open>s.name\<close> for a name that no prototype defines, as \<^verbatim>\<open>symbol\<close> and
  \<^verbatim>\<open>kind\<close> are: reading a property of null throws a TypeError, an object gives its
  own property or undefined (\<open>None\<close>), and every other value gives undefined.
\<close>

definition js_property :: "json \<Rightarrow> string \<Rightarrow> error + json option" where
  "js_property s property =
     (case s of
        JNull \<Rightarrow> Inl (Error ''TypeError'')
      | JObject properties \<Rightarrow> Inr (map_of properties property)
      | _ \<Rightarrow> Inr None)"

text \<open>
  The conversion to a string that a template literal applies. An array is its elements
  joined by commas, a null element giving the empty string. An object without a
  property \<^verbatim>\<open>toString\<close> of its own is \<^verbatim>\<open>[object Object]\<close>; with one, which
  parsed from JSON is not callable, the conversion throws a TypeError.
\<close>

fun join_parts :: "(error + string) list \<Rightarrow> error + string" where
  "join_parts [] = Inr []"
| "join_parts [part] = part"
| "join_parts (part # parts) =
     (case part of
        Inl e \<Rightarrow> Inl e
      | Inr text \<Rightarrow>
          (case join_parts parts of Inl e \<Rightarrow> Inl e | Inr joined \<Rightarrow> Inr (text @ '','' @ joined)))"

fun js_toString :: "json \<Rightarrow> error + string" where
  "js_toString JNull = Inr ''null''"
| "js_toString (JBool b) = Inr (if b then ''true'' else ''false'')"
| "js_toString (JNumber text) = Inr text"
| "js_toString (JString text) = Inr text"
| "js_toString (JArray elements) =
     join_parts (map (\<lambda>x. if x = JNull then Inr [] else js_toString x) elements)"
| "js_toString (JObject properties) =
     (if ''toString'' \<in> fst ` set properties then Inl (Error ''TypeError'')
      else Inr ''[object Object]'')"

definition template_part :: "json option \<Rightarrow> error + string" where
  "template_part v = (case v of None \<Rightarrow> Inr ''undefined'' | Some x \<Rightarrow> js_toString x)"

text \<open>The key the filter computes for an element: the template literal of its callback.\<close>

definition filter_key :: "json \<Rightarrow> error + string" where
  "filter_key s =
     await (js_property s ''symbol'') (\<lambda>symbol_value.
     await (template_part symbol_value) (\<lambda>symbol_text.
     await (js_property s ''kind'') (\<lambda>kind_value.
     await (template_part kind_value) (\<lambda>kind_text_value.
     Inr (symbol_text @ ''-'' @ kind_text_value)))))"

text \<open>
  The final \<^verbatim>\<open>filter\<close> with its \<^verbatim>\<open>seen\<close> set: an element passes when its key is
  new, and the key is then added. The filter stands outside every \<^verbatim>\<open>try\<close>, so what
  computing a key throws is thrown by the aggregator.
\<close>

fun dedupe :: "string set \<Rightarrow> json list \<Rightarrow> error + json list" where
  "dedupe seen [] = Inr []"
| "dedupe seen (s # rest) =
     (case filter_key s of
        Inl e \<Rightarrow> Inl e
      | Inr key \<Rightarrow>
          (if key \<in> seen then dedupe seen rest
           else (case dedupe (insert key seen) rest of
                   Inl e \<Rightarrow> Inl e
                 | Inr kept \<Rightarrow> Inr (s # kept))))"

text \<open>
  The windows' promises are all fulfilled, so \<^verbatim>\<open>Promise.all\<close> is fulfilled with the
  list of their values.
\<close>

definition analyzeCodeSymbols :: "gemini \<Rightarrow> string \<Rightarrow> string \<Rightarrow> error + json list" where
  "analyzeCodeSymbols ai p fullContent =
     (let results = chunkPromises ai p fullContent;
          allSymbols = js_flat results
      in dedupe {} allSymbols)"

text \<open>
  A symbol record of the declared shape as a parsed value, and the key of such a record.
\<close>

fun level_text :: "level \<Rightarrow> string" where
  "level_text High = ''high''"
| "level_text Medium = ''medium''"
| "level_text Low = ''low''"

definition symbol_json :: "SymbolDefinition \<Rightarrow> json" where
  "symbol_json s =
     JObject
       ([(''file'', JString (sym_file s)), (''symbol'', JString (symbol s)),
         (''kind'', JString (kind_text (kind s))), (''signature'', JString (signature s)),
         (''description'', JString (description s)),
         (''dependencies'', JArray (map JString (dependencies s)))] @
        (case sym_notes s of None \<Rightarrow> [] | Some n \<Rightarrow> [(''notes'', JString n)]) @
        (case sym_confidence s of None \<Rightarrow> [] | Some c \<Rightarrow> [(''confidence'', JString (level_text c))]))"

definition key_of :: "SymbolDefinition \<Rightarrow> string" where
  "key_of s = symbol s @ ''-'' @ kind_text (kind s)"

text \<open>
  What one window contributes to the merged list, in the words of the specification:
  the elements parsed from the model's response, and nothing when the call fails, the
  text is missing or the text does not parse.
\<close>

definition windowSymbols :: "gemini \<Rightarrow> string \<Rightarrow> nat \<Rightarrow> string \<Rightarrow> json list" where
  "windowSymbols ai p index chunk =
     (case generateContent ai (SymbolsPrompt p (index + 1) chunk) of
        Inl e \<Rightarrow> []
      | Inr None \<Rightarrow> []
      | Inr (Some text) \<Rightarrow>
          (if text = [] then []
           else (case JSON_parse_SymbolDefinitions ai text of
                   Inl e \<Rightarrow> []
                 | Inr (JArray elements) \<Rightarrow> elements
                 | Inr parsed \<Rightarrow> [parsed])))"

subsection \<open>Setup, pitfalls and the wiki\<close>

definition detectSetup :: "gemini \<Rightarrow> FileExcerpt list \<Rightarrow> error + SetupDetection" where
  "detectSetup ai dependencyFiles =
     (if length dependencyFiles = 0
      then Inr \<lparr>install = [], test = [], env = [], setup_notes = ''No dependency files found.'',
                setup_confidence = None, setup_evidence = None\<rparr>
      else try_catch
             (await (generateContent ai (SetupPrompt dependencyFiles)) (\<lambda>text.
                if \<not> no_text text then JSON_parse_SetupDetection ai (text_of text)
                else Inr \<lparr>install = [], test = [], env = [],
                          setup_notes = ''Failed to parse setup.'',
                          setup_confidence = None, setup_evidence = None\<rparr>))
             (\<lambda>e. Inr \<lparr>install = [], test = [], env = [],
                        setup_notes = ''Error during detection.'',
                        setup_confidence = None, setup_evidence = None\<rparr>))"

definition analyzePitfalls :: "gemini \<Rightarrow> FileExcerpt list \<Rightarrow> error + Pitfall list" where
  "analyzePitfalls ai files =
     try_catch
       (await (generateContent ai (PitfallsPrompt files)) (\<lambda>text.
          if \<not> no_text text then JSON_parse_Pitfalls ai (text_of text)
          else Inr []))
       (\<lambda>e. Inr [])"

definition generateWiki ::
  "gemini \<Rightarrow> string \<Rightarrow> ArchitectureAnalysis option \<Rightarrow> StaticResults option \<Rightarrow>
   FileExcerpt list \<Rightarrow> error + string" where
  "generateWiki ai readme architecture staticAnalysis dependencyFiles =
     (let truncatedReadme =
            (if length readme > 5000 then substring readme 0 5000 @ ''...(truncated)''
             else readme)
      in try_catch
           (await (generateContent ai
                     (WikiPrompt truncatedReadme architecture
                        (case staticAnalysis of None \<Rightarrow> [] | Some results \<Rightarrow> results)
                        (map path dependencyFiles))) (\<lambda>text.
              Inr (if \<not> no_text text then text_of text else ''# Error generating wiki'')))
           (\<lambda>e. Inr (''# Error generating wiki'' @ [CHR 0x0A, CHR 0x0A] @
                      ''Failed to synthesize documentation.'')))"

section \<open>The application\<close>

subsection \<open>State\<close>

datatype step =
    StepIdle | StepValidating | StepCloning | StepReading | StepSummarizing | StepScanning
  | StepArchitecting | StepAnalyzing_symbols | StepDetecting_setup | StepAnalyzing_pitfalls
  | StepGenerating_wiki | StepRunning_sandbox | StepComplete | StepError

text \<open>The fields of \<^verbatim>\<open>DeepScanData\<close> carry the prefix \<open>scan\<close>.\<close>

record DeepScanData =
  scan_languages :: "(string \<times> nat) list"
  scan_files :: "FileExcerpt list"
  scan_architecture :: "ArchitectureAnalysis option"

record SandboxResult =
  sandbox_rawOutput :: string
  sandbox_summary :: string
  sandbox_failures :: "string list"
  sandbox_fixes :: "string list"
  sandbox_status :: string

text \<open>The cached report; its fields carry the prefix \<open>cached\<close> next to the source's names.\<close>

record CachedRepoData =
  timestamp :: int
  cached_repoInfo :: RepoInfo
  cached_readme :: string
  cached_analysisResult :: AnalysisResult
  cached_deepScanData :: DeepScanData
  cached_setupData :: SetupDetection
  cached_pitfalls :: "Pitfall list"
  cached_staticAnalysisData :: "StaticResults option"
  cached_wikiMarkdown :: string
  cached_dependencyFiles :: "FileExcerpt list"

text \<open>
  The component's state variables that the analysis reads or sets, and with them the
  slot \<^verbatim>\<open>repoWikiCache\<close> of the local storage. \<open>input_url\<close> is the state variable
  \<^verbatim>\<open>url\<close> and \<open>error_message\<close> the state variable \<^verbatim>\<open>error\<close>.
\<close>

record AppState =
  input_url :: string
  currentStep :: step
  logMessage :: string
  analysisResult :: "AnalysisResult option"
  deepScanData :: "DeepScanData option"
  staticAnalysisData :: "StaticResults option"
  setupData :: "SetupDetection option"
  pitfalls :: "Pitfall list"
  wikiMarkdown :: string
  dependencyFiles :: "FileExcerpt list"
  rawReadme :: string
  isRawExpanded :: bool
  error_message :: "string option"
  expandedFileIndex :: "nat option"
  sandboxResult :: "SandboxResult option"
  repoWikiCache :: "string option"

text \<open>
  The browser: the clock \<^verbatim>\<open>Date.now()\<close>, the JSON functions at the type of the cached
  report, and whether \<^verbatim>\<open>localStorage.setItem\<close> throws for lack of quota.
\<close>

record browser =
  now :: int
  JSON_parse_Cached :: "string \<Rightarrow> error + CachedRepoData"
  JSON_stringify_Cached :: "CachedRepoData \<Rightarrow> string"
  quota_exceeded :: bool

subsection \<open>The cache\<close>

text \<open>
  The effect that runs on mount. A saved entry that parses is compared with the clock,
  and the body of the comparison is empty; an entry that does not parse is removed.
\<close>

definition loadCacheOnMount :: "browser \<Rightarrow> AppState \<Rightarrow> AppState" where
  "loadCacheOnMount br st =
     (case repoWikiCache st of
        None \<Rightarrow> st
      | Some saved \<Rightarrow>
          (if saved = [] then st
           else (case JSON_parse_Cached br saved of
                   Inr parsed \<Rightarrow> (if now br - timestamp parsed < 3600000 then st else st)
                 | Inl e \<Rightarrow> st\<lparr>repoWikiCache := None\<rparr>)))"

text \<open>
  \<open>saveToCache\<close>: \<open>data\<close> holds every field of the payload but the timestamp, so each
  value the payload takes from the state is overridden, and the timestamp is the clock.
\<close>

definition saveToCache :: "browser \<Rightarrow> CachedRepoData \<Rightarrow> AppState \<Rightarrow> AppState" where
  "saveToCache br data st =
     (let payload = data\<lparr>timestamp := now br\<rparr>
      in if quota_exceeded br then st
         else st\<lparr>repoWikiCache := Some (JSON_stringify_Cached br payload)\<rparr>)"

subsection \<open>The pipeline\<close>

text \<open>
  A stretch of the asynchronous handler takes the state and gives the settled value
  with the state reached: \<open>setting\<close> is a run of state setters, \<open>awaiting\<close> an awaited
  promise, \<open>andThen\<close> the sequence, which stops at the first error.
\<close>

definition setting :: "(AppState \<Rightarrow> AppState) \<Rightarrow> AppState \<Rightarrow> (error + unit) \<times> AppState" where
  "setting f st = (Inr (), f st)"

definition awaiting :: "error + 'a \<Rightarrow> AppState \<Rightarrow> (error + 'a) \<times> AppState" where
  "awaiting p st = (p, st)"

definition andThen ::
  "(AppState \<Rightarrow> (error + 'a) \<times> AppState) \<Rightarrow> ('a \<Rightarrow> AppState \<Rightarrow> (error + 'b) \<times> AppState) \<Rightarrow>
   AppState \<Rightarrow> (error + 'b) \<times> AppState" where
  "andThen m k st =
     (case m st of
        (Inl e, st') \<Rightarrow> (Inl e, st')
      | (Inr v, st') \<Rightarrow> k v st')"

text \<open>
  \<^verbatim>\<open>Promise.all\<close> of three promises, the third of which is always fulfilled. It
  rejects with the error of the promise that rejects first: when the first two both
  reject, \<open>second_first\<close> says that the second did so before the first.
\<close>

definition promise_all3 ::
  "bool \<Rightarrow> error + 'a \<Rightarrow> error + 'b \<Rightarrow> 'c \<Rightarrow> error + 'a \<times> 'b \<times> 'c" where
  "promise_all3 second_first p q c =
     (case p of
        Inl e \<Rightarrow>
          (case q of
             Inl e' \<Rightarrow> Inl (if second_first then e' else e)
           | Inr b \<Rightarrow> Inl e)
      | Inr a \<Rightarrow>
          (case q of
             Inl e' \<Rightarrow> Inl e'
           | Inr b \<Rightarrow> Inr (a, b, c)))"

text \<open>
  \<open>fetchTopRepoFiles\<close> rejects before \<open>fetchRepoLanguages\<close> when it throws for want of
  a default branch, which it does before its first request, or when the response to its
  tree request arrives first.
\<close>

definition files_settle_first :: "github \<Rightarrow> RepoInfo \<Rightarrow> bool" where
  "files_settle_first gh repo =
     (case defaultBranch repo of
        None \<Rightarrow> True
      | Some branch \<Rightarrow> branch = [] \<or> tree_settles_first gh)"

text \<open>\<^verbatim>\<open>Array.from(new Set(xs))\<close>: the first occurrence of each element, in order.\<close>

fun unique_from :: "'a list \<Rightarrow> 'a list \<Rightarrow> 'a list" where
  "unique_from seen [] = []"
| "unique_from seen (x # xs) =
     (if x \<in> set seen then unique_from seen xs else x # unique_from (x # seen) xs)"

definition architectStage ::
  "gemini \<Rightarrow> FileExcerpt list \<Rightarrow> AppState \<Rightarrow>
   (error + string list \<times> ArchitectureAnalysis option) \<times> AppState" where
  "architectStage ai files =
     (if length files > 0
      then
        andThen (setting (\<lambda>st. st\<lparr>currentStep := StepArchitecting,
                                   logMessage := ''Architecting system overview...''\<rparr>)) (\<lambda>_.
        andThen (awaiting (analyzeArchitecture ai files)) (\<lambda>architecture.
        andThen (setting (\<lambda>st. st\<lparr>deepScanData :=
                   (case deepScanData st of
                      Some prev \<Rightarrow> Some (prev\<lparr>scan_architecture := Some architecture\<rparr>)
                    | None \<Rightarrow> None)\<rparr>)) (\<lambda>_.
        awaiting (Inr
          (let entryPoints = map ep_path (entry_points architecture);
               entryPoints = (if length entryPoints < 2
                              then entryPoints @ map path (take 3 files)
                              else entryPoints);
               entryPoints = take 3 (unique_from [] entryPoints)
           in (entryPoints, Some architecture))))))
      else awaiting (Inr ([], None)))"

text \<open>The \<^verbatim>\<open>for\<close> loop over the entry points.\<close>

fun symbolsLoop ::
  "github \<Rightarrow> gemini \<Rightarrow> RepoInfo \<Rightarrow> string list \<Rightarrow> StaticResults \<Rightarrow> AppState \<Rightarrow>
   (error + StaticResults) \<times> AppState" where
  "symbolsLoop gh ai repoInfo [] staticResults st = (Inr staticResults, st)"
| "symbolsLoop gh ai repoInfo (filePath # rest) staticResults st =
     (let st = st\<lparr>logMessage := ''Analyzing symbols in '' @ filePath @ ''...''\<rparr>;
          content = fetchFullFileContent gh repoInfo filePath
      in if content \<noteq> []
         then (case analyzeCodeSymbols ai filePath content of
                 Inl e \<Rightarrow> (Inl e, st)
               | Inr symbols \<Rightarrow>
                   symbolsLoop gh ai repoInfo rest (staticResults @ [(filePath, symbols)]) st)
         else symbolsLoop gh ai repoInfo rest staticResults st)"

definition symbolsStage ::
  "github \<Rightarrow> gemini \<Rightarrow> RepoInfo \<Rightarrow> string list \<Rightarrow> AppState \<Rightarrow>
   (error + StaticResults) \<times> AppState" where
  "symbolsStage gh ai repoInfo entryPoints =
     (if length entryPoints > 0
      then
        andThen (setting (\<lambda>st. st\<lparr>currentStep := StepAnalyzing_symbols,
                   logMessage := ''Deep Static Analysis of key components...''\<rparr>)) (\<lambda>_.
        andThen (symbolsLoop gh ai repoInfo entryPoints []) (\<lambda>staticResults.
        andThen (setting (\<lambda>st. st\<lparr>staticAnalysisData := Some staticResults\<rparr>)) (\<lambda>_.
        awaiting (Inr staticResults))))
      else awaiting (Inr []))"

text \<open>The body of the \<^verbatim>\<open>try\<close> block of \<open>handleAnalyze\<close>.\<close>

definition tryBody ::
  "github \<Rightarrow> gemini \<Rightarrow> browser \<Rightarrow> RepoInfo \<Rightarrow> AppState \<Rightarrow> (error + unit) \<times> AppState" where
  "tryBody gh ai br repoInfo0 =
     andThen (setting (\<lambda>st. st\<lparr>currentStep := StepCloning,
                logMessage := ''Cloning '' @ owner repoInfo0 @ ''/'' @ name repoInfo0 @ ''...''\<rparr>)) (\<lambda>_.
     andThen (awaiting (fetchRepoDetails gh repoInfo0)) (\<lambda>repoInfo.
     andThen (setting (\<lambda>st. st\<lparr>currentStep := StepReading,
                logMessage := ''Reading README.md...''\<rparr>)) (\<lambda>_.
     andThen (awaiting (fetchRepoReadme gh repoInfo)) (\<lambda>readmeContent.
     andThen (setting (\<lambda>st. st\<lparr>rawReadme := readmeContent, currentStep := StepSummarizing,
                logMessage := ''Analyzing README with Gemini 3 Pro...''\<rparr>)) (\<lambda>_.
     andThen (awaiting (summarizeRepo ai readmeContent)) (\<lambda>result.
     andThen (setting (\<lambda>st. st\<lparr>analysisResult := Some result, currentStep := StepScanning,
                logMessage := ''Scanning file structure & identifying languages...''\<rparr>)) (\<lambda>_.
     andThen (awaiting (promise_all3 (files_settle_first gh repoInfo)
                (fetchRepoLanguages gh repoInfo) (fetchTopRepoFiles gh repoInfo)
                (fetchDependencyFiles gh repoInfo)))
       (\<lambda>(languages, files, deps).
     andThen (setting (\<lambda>st. st\<lparr>dependencyFiles := deps,
                deepScanData := Some \<lparr>scan_languages = languages, scan_files = files,
                                       scan_architecture = None\<rparr>,
                currentStep := StepDetecting_setup,
                logMessage := ''Detecting build/test commands...''\<rparr>)) (\<lambda>_.
     andThen (awaiting (detectSetup ai deps)) (\<lambda>setup.
     andThen (setting (\<lambda>st. st\<lparr>setupData := Some setup, currentStep := StepAnalyzing_pitfalls,
                logMessage := ''Checking for common runtime pitfalls...''\<rparr>)) (\<lambda>_.
     andThen (awaiting (analyzePitfalls ai (take 15 (deps @ files)))) (\<lambda>pitfallsResult.
     andThen (setting (\<lambda>st. st\<lparr>pitfalls := pitfallsResult\<rparr>)) (\<lambda>_.
     andThen (architectStage ai files) (\<lambda>(entryPoints, archData).
     andThen (symbolsStage gh ai repoInfo entryPoints) (\<lambda>staticResults.
     andThen (setting (\<lambda>st. st\<lparr>currentStep := StepGenerating_wiki,
                logMessage := ''Synthesizing comprehensive Wiki documentation...''\<rparr>)) (\<lambda>_.
     andThen (awaiting (generateWiki ai readmeContent archData (Some staticResults) deps)) (\<lambda>wiki.
     andThen (setting (\<lambda>st. st\<lparr>wikiMarkdown := wiki\<rparr>)) (\<lambda>_.
     andThen (setting (saveToCache br
                \<lparr>timestamp = 0, cached_repoInfo = repoInfo, cached_readme = readmeContent,
                 cached_analysisResult = result,
                 cached_deepScanData = \<lparr>scan_languages = languages, scan_files = files,
                                         scan_architecture = archData\<rparr>,
                 cached_setupData = setup, cached_pitfalls = pitfallsResult,
                 cached_staticAnalysisData = Some staticResults, cached_wikiMarkdown = wiki,
                 cached_dependencyFiles = deps\<rparr>)) (\<lambda>_.
     setting (\<lambda>st. st\<lparr>currentStep := StepComplete,
                logMessage := ''Full analysis complete.''\<rparr>))))))))))))))))))))"

text \<open>
  A structured-response failure, in the words of the specification: the model returns no
  text, or text that fails to parse against the expected shape.
\<close>

definition structured_failure :: "error + string option \<Rightarrow> (string \<Rightarrow> error + 'a) \<Rightarrow> bool" where
  "structured_failure response parse =
     (case response of
        Inl e \<Rightarrow> False
      | Inr None \<Rightarrow> True
      | Inr (Some text) \<Rightarrow> text = [] \<or> isl (parse text))"

text \<open>
  A fresh run: the result state is reset, then the \<^verbatim>\<open>try\<close> block runs and the
  \<^verbatim>\<open>catch\<close> clause shows the message of whatever it throws.
\<close>

definition freshRun :: "github \<Rightarrow> gemini \<Rightarrow> browser \<Rightarrow> RepoInfo \<Rightarrow> AppState \<Rightarrow> AppState" where
  "freshRun gh ai br repoInfo st =
     (let st = st\<lparr>error_message := None, analysisResult := None, deepScanData := None,
                  staticAnalysisData := None, setupData := None, pitfalls := [],
                  wikiMarkdown := [], rawReadme := [], isRawExpanded := False,
                  expandedFileIndex := Some 0, sandboxResult := None,
                  currentStep := StepValidating, logMessage := ''Validating URL format...''\<rparr>
      in case tryBody gh ai br repoInfo st of
           (Inr u, st') \<Rightarrow> st'
         | (Inl (Error message), st') \<Rightarrow>
             st'\<lparr>currentStep := StepError,
                 error_message := Some (if message \<noteq> [] then message
                                        else ''An unexpected error occurred.'')\<rparr>)"

text \<open>
  \<open>handleAnalyze\<close>. The saved entry is parsed outside any \<^verbatim>\<open>try\<close>, so a parse error
  rejects the handler's promise.
\<close>

definition handleAnalyze ::
  "github \<Rightarrow> gemini \<Rightarrow> browser \<Rightarrow> bool \<Rightarrow> AppState \<Rightarrow> error + AppState" where
  "handleAnalyze gh ai br skipCache st =
     (let saved = repoWikiCache st
      in case parseGithubUrl (input_url st) of
           None \<Rightarrow>
             Inr (st\<lparr>currentStep := StepError,
                      error_message :=
                        Some ''Invalid GitHub URL. Format: https://github.com/owner/repo''\<rparr>)
         | Some repoInfo \<Rightarrow>
             (if \<not> skipCache \<and> saved \<noteq> None \<and> saved \<noteq> Some []
              then (case JSON_parse_Cached br (text_of saved) of
                      Inl e \<Rightarrow> Inl e
                    | Inr parsed \<Rightarrow>
                        (if name (cached_repoInfo parsed) = name repoInfo \<and>
                            owner (cached_repoInfo parsed) = owner repoInfo
                         then Inr (st\<lparr>analysisResult := Some (cached_analysisResult parsed),
                                       deepScanData := Some (cached_deepScanData parsed),
                                       setupData := Some (cached_setupData parsed),
                                       pitfalls := cached_pitfalls parsed,
                                       staticAnalysisData := cached_staticAnalysisData parsed,
                                       wikiMarkdown := cached_wikiMarkdown parsed,
                                       rawReadme := cached_readme parsed,
                                       dependencyFiles := cached_dependencyFiles parsed,
                                       currentStep := StepComplete,
                                       logMessage := ''Restored from Cache''\<rparr>)
                         else Inr (freshRun gh ai br repoInfo st)))
              else Inr (freshRun gh ai br repoInfo st)))"

section \<open>Concrete inputs\<close>

text \<open>
  A tree listing with a directory, two excluded paths and three eligible files, two of
  them of equal score; and the order expected of the selector.
\<close>

definition tree5 :: "TreeItem list" where
  "tree5 =
     [\<lparr>item_path = ''README.md'', item_type = ''blob'', item_size = 10\<rparr>,
      \<lparr>item_path = ''src'', item_type = ''tree'', item_size = 0\<rparr>,
      \<lparr>item_path = ''src/index.ts'', item_type = ''blob'', item_size = 20\<rparr>,
      \<lparr>item_path = ''node_modules/x/index.js'', item_type = ''blob'', item_size = 30\<rparr>,
      \<lparr>item_path = ''dist/bundle.js'', item_type = ''blob'', item_size = 40\<rparr>,
      \<lparr>item_path = ''CHANGES.md'', item_type = ''blob'', item_size = 50\<rparr>]"

definition ranked5 :: "TreeItem list" where
  "ranked5 =
     [\<lparr>item_path = ''src/index.ts'', item_type = ''blob'', item_size = 20\<rparr>,
      \<lparr>item_path = ''README.md'', item_type = ''blob'', item_size = 10\<rparr>,
      \<lparr>item_path = ''CHANGES.md'', item_type = ''blob'', item_size = 50\<rparr>]"

text \<open>
  A repository whose tree lists thirteen eligible files, and one whose tree is
  \<open>tree5\<close>. Every file of the first has the same short content; the files of the
  second have 501 code units, one more than the limit of a broad-scan excerpt, and its
  manifests 3001.
\<close>

definition repo0 :: RepoInfo where
  "repo0 = \<lparr>owner = ''own'', name = ''repo'', url = ''https://github.com/own/repo'',
            defaultBranch = Some ''main''\<rparr>"

definition files13 :: "TreeItem list" where
  "files13 =
     map (\<lambda>n. \<lparr>item_path = ''f'' @ replicate n CHR ''x'' @ ''.ts'', item_type = ''blob'',
                item_size = n\<rparr>) [0..<13]"

definition gh13 :: github where
  "gh13 =
     \<lparr>get_repo = (\<lambda>u. NotOk 404 []), get_readme = (\<lambda>u. NotOk 404 []),
      get_languages = (\<lambda>u. NotOk 404 []), get_tree = (\<lambda>u. Ok (Some files13)),
      get_contents = (\<lambda>u. Ok (Some ''eA=='')), b64DecodeUnicode = (\<lambda>s. Inr ''x''),
      tree_settles_first = False\<rparr>"

definition gh5 :: github where
  "gh5 =
     \<lparr>get_repo = (\<lambda>u. NotOk 404 []), get_readme = (\<lambda>u. NotOk 404 []),
      get_languages = (\<lambda>u. NotOk 404 []), get_tree = (\<lambda>u. Ok (Some tree5)),
      get_contents =
        (\<lambda>u. if js_endsWith u ''.md'' \<or> js_endsWith u ''.ts'' then Ok (Some ''long'')
             else if js_endsWith u ''/package.json'' then Ok (Some ''manifest'')
             else NotOk 404 []),
      b64DecodeUnicode =
        (\<lambda>s. if s = ''long'' then Inr (replicate 501 CHR ''a'')
             else Inr (replicate 3001 CHR ''b'')),
      tree_settles_first = False\<rparr>"

text \<open>
  A model that answers the first three windows of a file and rejects every other
  request, and one that answers every request.
\<close>

definition ai3 :: gemini where
  "ai3 =
     \<lparr>generateContent =
        (\<lambda>pr. case pr of
                SymbolsPrompt p i c \<Rightarrow>
                  (if i \<le> 3 then Inr (Some ''[]'') else Inl (Error ''quota''))
              | _ \<Rightarrow> Inl (Error ''quota'')),
      JSON_parse_AnalysisResult = (\<lambda>t. Inl (Error ''SyntaxError'')),
      JSON_parse_ArchitectureAnalysis = (\<lambda>t. Inl (Error ''SyntaxError'')),
      JSON_parse_SymbolDefinitions = (\<lambda>t. Inr (JArray [])),
      JSON_parse_SetupDetection = (\<lambda>t. Inl (Error ''SyntaxError'')),
      JSON_parse_Pitfalls = (\<lambda>t. Inl (Error ''SyntaxError''))\<rparr>"

definition ai3' :: gemini where
  "ai3' = ai3\<lparr>generateContent := (\<lambda>pr. Inr (Some ''[]''))\<rparr>"

text \<open>
  A model whose answer for the second window is rejected. The first window yields a
  function \<open>run\<close>; the third yields a record with the same symbol and kind but another
  description, and a class \<open>Job\<close>.
\<close>

definition symRun1 :: SymbolDefinition where
  "symRun1 =
     \<lparr>sym_file = ''p'', symbol = ''run'', kind = SymFunction, signature = ''run()'',
      description = ''first'', dependencies = [], sym_notes = None, sym_confidence = None\<rparr>"

definition symRun3 :: SymbolDefinition where
  "symRun3 = symRun1\<lparr>description := ''third''\<rparr>"

definition symJob :: SymbolDefinition where
  "symJob = symRun1\<lparr>symbol := ''Job'', kind := SymClass, signature := ''class Job''\<rparr>"

definition ai4 :: gemini where
  "ai4 =
     \<lparr>generateContent =
        (\<lambda>pr. case pr of
                SymbolsPrompt p i c \<Rightarrow>
                  (if i = 1 then Inr (Some ''w1'')
                   else if i = 3 then Inr (Some ''w3'')
                   else Inl (Error ''unavailable''))
              | _ \<Rightarrow> Inr None),
      JSON_parse_AnalysisResult = (\<lambda>t. Inl (Error ''SyntaxError'')),
      JSON_parse_ArchitectureAnalysis = (\<lambda>t. Inl (Error ''SyntaxError'')),
      JSON_parse_SymbolDefinitions =
        (\<lambda>t. if t = ''w1'' then Inr (JArray [symbol_json symRun1])
             else if t = ''w3'' then Inr (JArray [symbol_json symRun3, symbol_json symJob])
             else Inl (Error ''SyntaxError'')),
      JSON_parse_SetupDetection = (\<lambda>t. Inl (Error ''SyntaxError'')),
      JSON_parse_Pitfalls = (\<lambda>t. Inl (Error ''SyntaxError''))\<rparr>"


text \<open>
  A repository that answers every endpoint, a model whose summary parses while every
  other structured response does not, and the state of the component after the address
  \<^verbatim>\<open>https://github.com/own/repo\<close> has been typed.
\<close>

definition gh8 :: github where
  "gh8 =
     gh5\<lparr>get_repo := (\<lambda>u. Ok (Some ''main'')), get_readme := (\<lambda>u. Ok (Some ''readme'')),
         get_languages := (\<lambda>u. Ok [(''TypeScript'', 100)])\<rparr>"

definition ai8 :: gemini where
  "ai8 =
     ai4\<lparr>generateContent :=
           (\<lambda>pr. case pr of SummaryPrompt t \<Rightarrow> Inr (Some ''ok'') | _ \<Rightarrow> Inr (Some ''not json'')),
         JSON_parse_AnalysisResult :=
           (\<lambda>t. if t = ''ok'' then Inr \<lparr>summary = ''A tool.'', runtime = ''node''\<rparr>
                else Inl (Error ''SyntaxError'')),
         JSON_parse_SymbolDefinitions := (\<lambda>t. Inl (Error ''SyntaxError''))\<rparr>"

definition initialState :: AppState where
  "initialState =
     \<lparr>input_url = [], currentStep = StepIdle, logMessage = [], analysisResult = None,
      deepScanData = None, staticAnalysisData = None, setupData = None, pitfalls = [],
      wikiMarkdown = [], dependencyFiles = [], rawReadme = [], isRawExpanded = False,
      error_message = None, expandedFileIndex = Some 0, sandboxResult = None,
      repoWikiCache = None\<rparr>"

definition st8 :: AppState where
  "st8 = initialState\<lparr>input_url := ''https://github.com/own/repo''\<rparr>"

text \<open>
  A report saved at time 0 for that repository, a browser whose clock stands two hours
  later, and the state with the report in the storage slot.
\<close>

definition report1 :: CachedRepoData where
  "report1 =
     \<lparr>timestamp = 0,
      cached_repoInfo = repo0,
      cached_readme = ''# old readme'',
      cached_analysisResult = \<lparr>summary = ''An old summary.'', runtime = ''node''\<rparr>,
      cached_deepScanData = \<lparr>scan_languages = [], scan_files = [], scan_architecture = None\<rparr>,
      cached_setupData = \<lparr>install = [''npm install''], test = [], env = [],
                          setup_notes = [], setup_confidence = None, setup_evidence = None\<rparr>,
      cached_pitfalls = [],
      cached_staticAnalysisData = None,
      cached_wikiMarkdown = ''# old wiki'',
      cached_dependencyFiles = []\<rparr>"

definition br1 :: browser where
  "br1 =
     \<lparr>now = 7200000,
      JSON_parse_Cached =
        (\<lambda>s. if s = ''saved report'' then Inr report1 else Inl (Error ''SyntaxError'')),
      JSON_stringify_Cached = (\<lambda>d. ''saved report''),
      quota_exceeded = False\<rparr>"

definition st1 :: AppState where
  "st1 = st8\<lparr>repoWikiCache := Some ''saved report''\<rparr>"



section \<open>Properties of the string functions\<close>

lemma js_startsWith_prefix: "js_startsWith s p = prefix p s"
  by (induction s p rule: js_startsWith.induct) auto

lemma js_includes_sublist: "js_includes s p = sublist p s"
  by (induction s) (auto simp: js_startsWith_prefix sublist_Cons_right)

lemma js_endsWith_suffix: "js_endsWith s p = suffix p s"
  by (simp add: js_endsWith_def js_startsWith_prefix suffix_to_prefix)

lemma substring_from_0: "substring s 0 b = take b s"
  by (simp add: substring_def min_def)

section \<open>The repository address parser\<close>

lemma takeWhile_notSlash_run:
  "CHR ''/'' \<notin> set g \<Longrightarrow> takeWhile notSlash (g @ CHR ''/'' # r) = g"
  by (induction g) (auto simp: notSlash_def)

lemma dropWhile_notSlash_run:
  "CHR ''/'' \<notin> set g \<Longrightarrow> dropWhile notSlash (g @ CHR ''/'' # r) = CHR ''/'' # r"
  by (induction g) (auto simp: notSlash_def)

lemma takeWhile_notSlash_prefix:
  "CHR ''/'' \<notin> set g \<Longrightarrow> takeWhile notSlash (g @ r) = g @ takeWhile notSlash r"
  by (induction g) (auto simp: notSlash_def)

lemma match_at_pattern:
  assumes "pattern_at s 0 g1 g2"
  shows "\<exists>g2'. match_at s = Some (g1, g2') \<and> prefix g2 g2'"
proof -
  from assms obtain post where s: "s = ''github.com/'' @ g1 @ ''/'' @ g2 @ post"
    and ne: "g1 \<noteq> []" "g2 \<noteq> []" and ns: "CHR ''/'' \<notin> set g1" "CHR ''/'' \<notin> set g2"
    by (auto simp: pattern_at_def)
  have d: "drop (length ''github.com/'') s = g1 @ CHR ''/'' # g2 @ post"
    by (simp add: s)
  have p: "js_startsWith s ''github.com/''"
    by (simp add: s js_startsWith_prefix)
  show ?thesis
    unfolding match_at_def Let_def d
    using p ne ns
    by (simp add: takeWhile_notSlash_run dropWhile_notSlash_run takeWhile_notSlash_prefix notSlash_def)
qed

lemma match_at_Some:
  assumes "match_at s = Some (g1, g2)"
  shows "pattern_at s 0 g1 g2"
proof -
  from assms have p: "prefix ''github.com/'' s"
    by (auto simp: match_at_def js_startsWith_prefix split: if_splits)
  then obtain r where s: "s = ''github.com/'' @ r"
    by (auto simp: prefix_def)
  have d: "drop (length ''github.com/'') s = r" by (simp add: s)
  from assms p obtain c r2 where g1: "g1 = takeWhile notSlash r" "g1 \<noteq> []"
    and r1: "dropWhile notSlash r = c # r2"
    and g2: "g2 = takeWhile notSlash r2" "g2 \<noteq> []"
    unfolding match_at_def Let_def d
    by (auto simp: js_startsWith_prefix split: if_splits list.splits)
  from r1 have h: "c = CHR ''/''"
    using hd_dropWhile[of notSlash r] by (simp add: notSlash_def)
  have "r = g1 @ dropWhile notSlash r" by (simp add: g1)
  also have "dropWhile notSlash r = CHR ''/'' # r2"
    using r1 h by simp
  also have "r2 = g2 @ dropWhile notSlash r2"
    by (simp add: g2)
  finally have "r = g1 @ ''/'' @ g2 @ dropWhile notSlash r2" by simp
  then have dec: "\<exists>post. drop 0 s = ''github.com/'' @ g1 @ ''/'' @ g2 @ post"
    unfolding s by (intro exI[of _ "dropWhile notSlash r2"]) simp
  have ns: "CHR ''/'' \<notin> set g1" "CHR ''/'' \<notin> set g2"
    using set_takeWhileD[of "CHR ''/''" notSlash] by (auto simp: g1 g2 notSlash_def)
  show ?thesis
    unfolding pattern_at_def using g1(2) g2(2) ns dec by blast
qed


lemma pattern_at_drop: "pattern_at s k g1 g2 = (k \<le> length s \<and> pattern_at (drop k s) 0 g1 g2)"
  by (auto simp: pattern_at_def)

lemma regex_match_Some:
  "regex_match s = Some m \<Longrightarrow>
     \<exists>k\<le>length s. match_at (drop k s) = Some m \<and> (\<forall>j<k. match_at (drop j s) = None)"
proof (induction s)
  case Nil
  then show ?case by simp
next
  case (Cons c cs)
  show ?case
  proof (cases "match_at (c # cs)")
    case None
    with Cons.prems have "regex_match cs = Some m" by simp
    from Cons.IH[OF this] obtain k where k: "k \<le> length cs" "match_at (drop k cs) = Some m"
      "\<forall>j<k. match_at (drop j cs) = None" by blast
    have "\<forall>j<Suc k. match_at (drop j (c # cs)) = None"
    proof (intro allI impI)
      fix j assume "j < Suc k"
      then show "match_at (drop j (c # cs)) = None"
        using None k(3) by (cases j) auto
    qed
    with k show ?thesis by (intro exI[of _ "Suc k"]) simp
  next
    case (Some m')
    with Cons.prems have "m' = m" by simp
    with Some show ?thesis by (intro exI[of _ 0]) simp
  qed
qed

lemma regex_match_None:
  "regex_match s = None \<Longrightarrow> k \<le> length s \<Longrightarrow> match_at (drop k s) = None"
proof (induction s arbitrary: k)
  case Nil
  then show ?case by simp
next
  case (Cons c cs)
  then show ?case by (cases k) (auto split: option.splits)
qed

lemma regex_match_None_iff:
  "(regex_match s = None) = (\<not> (\<exists>k g1 g2. pattern_at s k g1 g2))"
proof
  assume n: "regex_match s = None"
  show "\<not> (\<exists>k g1 g2. pattern_at s k g1 g2)"
  proof
    assume "\<exists>k g1 g2. pattern_at s k g1 g2"
    then obtain k g1 g2 where "k \<le> length s" "pattern_at (drop k s) 0 g1 g2"
      using pattern_at_drop by blast
    with match_at_pattern[of "drop k s" g1 g2] regex_match_None[OF n, of k]
    show False by auto
  qed
next
  assume a: "\<not> (\<exists>k g1 g2. pattern_at s k g1 g2)"
  show "regex_match s = None"
  proof (rule ccontr)
    assume "regex_match s \<noteq> None"
    then obtain g1 g2 where "regex_match s = Some (g1, g2)" by auto
    from regex_match_Some[OF this] obtain k where "k \<le> length s"
      "match_at (drop k s) = Some (g1, g2)" by blast
    with match_at_Some[of "drop k s" g1 g2] have "pattern_at s k g1 g2"
      using pattern_at_drop by blast
    with a show False by blast
  qed
qed

lemma regex_match_leftmost:
  assumes "regex_match s = Some (g1, g2)"
  shows "\<exists>k. pattern_at s k g1 g2 \<and>
           (\<forall>k' h1 h2. pattern_at s k' h1 h2 \<longrightarrow>
                k \<le> k' \<and> (k' = k \<longrightarrow> h1 = g1 \<and> prefix h2 g2))"
proof -
  from regex_match_Some[OF assms] obtain k where k: "k \<le> length s"
    "match_at (drop k s) = Some (g1, g2)" "\<forall>j<k. match_at (drop j s) = None" by blast
  have p: "pattern_at s k g1 g2"
    using match_at_Some[OF k(2)] k(1) pattern_at_drop by blast
  have "k \<le> k' \<and> (k' = k \<longrightarrow> h1 = g1 \<and> prefix h2 g2)" if h: "pattern_at s k' h1 h2" for k' h1 h2
  proof -
    from h have "pattern_at (drop k' s) 0 h1 h2" using pattern_at_drop by blast
    from match_at_pattern[OF this] obtain g2' where
      m: "match_at (drop k' s) = Some (h1, g2')" "prefix h2 g2'" by blast
    from m(1) k(3) have "k \<le> k'" by (metis not_le option.distinct(1))
    moreover have "h1 = g1 \<and> prefix h2 g2" if "k' = k"
      using m k(2) that by simp
    ultimately show ?thesis by blast
  qed
  with p show ?thesis by blast
qed

lemma js_replace_absent: "\<not> sublist pat s \<Longrightarrow> js_replace s pat rep = s"
  by (induction s) (auto simp: js_startsWith_prefix sublist_Cons_right)

lemma js_replace_first:
  "sublist pat s \<Longrightarrow>
     \<exists>a b. s = a @ pat @ b \<and> (\<forall>k<length a. \<not> prefix pat (drop k s)) \<and>
           js_replace s pat rep = a @ rep @ b"
proof (induction s)
  case Nil
  then show ?case by simp
next
  case (Cons c cs)
  show ?case
  proof (cases "prefix pat (c # cs)")
    case True
    then obtain b where b: "c # cs = pat @ b" by (auto simp: prefix_def)
    have "js_replace (c # cs) pat rep = rep @ drop (length pat) (c # cs)"
      using True by (simp add: js_startsWith_prefix)
    also have "drop (length pat) (c # cs) = b" unfolding b by simp
    finally have "js_replace (c # cs) pat rep = [] @ rep @ b" by simp
    moreover have "c # cs = [] @ pat @ b" using b by simp
    moreover have "\<forall>k<length ([]::string). \<not> prefix pat (drop k (c # cs))" by simp
    ultimately show ?thesis by blast
  next
    case False
    with Cons.prems have "sublist pat cs" by (simp add: sublist_Cons_right)
    from Cons.IH[OF this] obtain a b where ab: "cs = a @ pat @ b"
      "\<forall>k<length a. \<not> prefix pat (drop k cs)" "js_replace cs pat rep = a @ rep @ b" by blast
    have "\<forall>k<length (c # a). \<not> prefix pat (drop k (c # cs))"
    proof (intro allI impI)
      fix k assume "k < length (c # a)"
      then show "\<not> prefix pat (drop k (c # cs))"
        using False ab(2) by (cases k) auto
    qed
    with ab False show ?thesis
      by (intro exI[of _ "c # a"] exI[of _ b]) (simp add: js_startsWith_prefix)
  qed
qed

lemma dot_git_no_overlap:
  assumes "\<not> prefix ''.git'' (c # cs)"
  shows "\<not> prefix ''.git'' (c # cs @ ''.git'')"
proof (cases cs)
  case Nil
  then show ?thesis by auto
next
  case (Cons x xs)
  note c1 = this
  show ?thesis
  proof (cases xs)
    case Nil
    with c1 show ?thesis by auto
  next
    case (Cons y ys)
    with c1 assms show ?thesis by (cases ys) auto
  qed
qed

lemma js_replace_trailing_git:
  "\<not> sublist ''.git'' b \<Longrightarrow> js_replace (b @ ''.git'') ''.git'' [] = b"
proof (induction b)
  case Nil
  then show ?case by simp
next
  case (Cons c cs)
  then have "\<not> prefix ''.git'' (c # cs)" and n: "\<not> sublist ''.git'' cs"
    by (simp_all add: sublist_Cons_right)
  from dot_git_no_overlap[OF this(1)]
  have "\<not> js_startsWith (c # cs @ ''.git'') ''.git''"
    by (simp only: js_startsWith_prefix not_False_eq_True)
  then have "js_replace ((c # cs) @ ''.git'') ''.git'' [] = c # js_replace (cs @ ''.git'') ''.git'' []"
    by (simp only: append_Cons js_replace.simps if_False)
  with Cons.IH[OF n] show ?case by simp
qed


lemma js_trim_part: "\<exists>a b. u = a @ js_trim u @ b"
proof -
  let ?v = "dropWhile isWhiteSpace u"
  have "u = takeWhile isWhiteSpace u @ ?v" by simp
  moreover have "rev ?v = takeWhile isWhiteSpace (rev ?v) @ dropWhile isWhiteSpace (rev ?v)"
    by simp
  then have "?v = rev (dropWhile isWhiteSpace (rev ?v)) @ rev (takeWhile isWhiteSpace (rev ?v))"
    by (metis rev_append rev_rev_ident)
  ultimately have "u = takeWhile isWhiteSpace u @ js_trim u @ rev (takeWhile isWhiteSpace (rev ?v))"
    unfolding js_trim_def by metis
  then show ?thesis by blast
qed

lemma pattern_at_embedded:
  assumes "pattern_at t k g1 g2" and "u = a @ t @ b"
  shows "pattern_at u (length a + k) g1 g2"
proof -
  from assms(1) obtain post where k: "k \<le> length t" and ne: "g1 \<noteq> []" "g2 \<noteq> []"
    and ns: "CHR ''/'' \<notin> set g1" "CHR ''/'' \<notin> set g2"
    and d: "drop k t = ''github.com/'' @ g1 @ ''/'' @ g2 @ post"
    unfolding pattern_at_def by blast
  have "drop (length a + k) u = drop k t @ b"
    using k by (simp add: assms(2))
  then have "drop (length a + k) u = ''github.com/'' @ g1 @ ''/'' @ g2 @ (post @ b)"
    by (simp add: d)
  moreover have "length a + k \<le> length u" using k by (simp add: assms(2))
  ultimately show ?thesis unfolding pattern_at_def using ne ns by blast
qed

lemma parseGithubUrl_None_raw:
  assumes "\<not> (\<exists>k g1 g2. pattern_at u k g1 g2)"
  shows "parseGithubUrl u = None"
proof -
  obtain a b where u: "u = a @ js_trim u @ b" using js_trim_part by blast
  have "\<not> (\<exists>k g1 g2. pattern_at (js_trim u) k g1 g2)"
    using assms pattern_at_embedded[OF _ u] by blast
  then have "regex_match (js_trim u) = None" using regex_match_None_iff by blast
  then show ?thesis by (simp add: parseGithubUrl_def)
qed

text \<open>
  C10. \<open>parseGithubUrl\<close> returns a value for every string, and the pattern
  \<^verbatim>\<open>github.com/<owner>/<name>\<close> is read on the string with the white space at its
  ends removed, which is what the code matches. It returns null exactly when that
  trimmed string holds no pattern, hence also when the string itself holds none.
  Otherwise the owner is the first segment after \<^verbatim>\<open>github.com/\<close> at the leftmost
  offset where the pattern stands in the trimmed string, and the name is the whole
  second segment there with the first occurrence of \<^verbatim>\<open>.git\<close> removed, wherever it
  stands: a segment without \<^verbatim>\<open>.git\<close> is kept, a trailing \<^verbatim>\<open>.git\<close> after a base
  without one is stripped, and \<^verbatim>\<open>a.github\<close> becomes \<^verbatim>\<open>ahub\<close>.
\<close>

theorem parseGithubUrl_pattern:
  "(\<not> (\<exists>k g1 g2. pattern_at u k g1 g2) \<longrightarrow> parseGithubUrl u = None) \<and>
   (parseGithubUrl u = None) = (\<not> (\<exists>k g1 g2. pattern_at (js_trim u) k g1 g2)) \<and>
   (parseGithubUrl u = Some r \<longrightarrow>
      (\<exists>k seg. pattern_at (js_trim u) k (owner r) seg \<and>
         (\<forall>k' h1 h2. pattern_at (js_trim u) k' h1 h2 \<longrightarrow>
              k \<le> k' \<and> (k' = k \<longrightarrow> h1 = owner r \<and> prefix h2 seg)) \<and>
         name r = js_replace seg ''.git'' [] \<and> url r = js_trim u \<and> defaultBranch r = None)) \<and>
   (\<not> sublist ''.git'' seg \<longrightarrow> js_replace seg ''.git'' [] = seg) \<and>
   (sublist ''.git'' seg \<longrightarrow>
      (\<exists>a b. seg = a @ ''.git'' @ b \<and> (\<forall>j<length a. \<not> prefix ''.git'' (drop j seg)) \<and>
             js_replace seg ''.git'' [] = a @ b)) \<and>
   (\<not> sublist ''.git'' b \<longrightarrow> js_replace (b @ ''.git'') ''.git'' [] = b) \<and>
   parseGithubUrl ''https://github.com/x/a.github'' =
     Some \<lparr>owner = ''x'', name = ''ahub'', url = ''https://github.com/x/a.github'',
           defaultBranch = None\<rparr>"
proof (intro conjI impI)
  assume "\<not> (\<exists>k g1 g2. pattern_at u k g1 g2)"
  then show "parseGithubUrl u = None" by (rule parseGithubUrl_None_raw)
next
  show "(parseGithubUrl u = None) = (\<not> (\<exists>k g1 g2. pattern_at (js_trim u) k g1 g2))"
    using regex_match_None_iff[of "js_trim u"]
    by (auto simp: parseGithubUrl_def Let_def split: option.splits)
next
  assume a: "parseGithubUrl u = Some r"
  then obtain g1 g2 where m: "regex_match (js_trim u) = Some (g1, g2)"
    and r: "r = \<lparr>owner = g1, name = js_replace g2 ''.git'' [], url = js_trim u,
                   defaultBranch = None\<rparr>"
    by (auto simp: parseGithubUrl_def Let_def split: option.splits)
  from regex_match_leftmost[OF m] r
  show "\<exists>k seg. pattern_at (js_trim u) k (owner r) seg \<and>
         (\<forall>k' h1 h2. pattern_at (js_trim u) k' h1 h2 \<longrightarrow>
              k \<le> k' \<and> (k' = k \<longrightarrow> h1 = owner r \<and> prefix h2 seg)) \<and>
         name r = js_replace seg ''.git'' [] \<and> url r = js_trim u \<and> defaultBranch r = None"
    by auto
next
  assume "\<not> sublist ''.git'' seg"
  then show "js_replace seg ''.git'' [] = seg" by (rule js_replace_absent)
next
  assume "sublist ''.git'' seg"
  from js_replace_first[OF this, of "[]"]
  show "\<exists>a b. seg = a @ ''.git'' @ b \<and> (\<forall>j<length a. \<not> prefix ''.git'' (drop j seg)) \<and>
             js_replace seg ''.git'' [] = a @ b"
    by simp
next
  assume "\<not> sublist ''.git'' b"
  then show "js_replace (b @ ''.git'') ''.git'' [] = b" by (rule js_replace_trailing_git)
next
  show "parseGithubUrl ''https://github.com/x/a.github'' =
     Some \<lparr>owner = ''x'', name = ''ahub'', url = ''https://github.com/x/a.github'',
           defaultBranch = None\<rparr>"
    by code_simp
qed

theorem parseGithubUrl_pattern_witness:
  "parseGithubUrl ''not a repository address'' = None \<and>
   parseGithubUrl '' https://github.com/own/repo.git'' =
     Some \<lparr>owner = ''own'', name = ''repo'', url = ''https://github.com/own/repo.git'',
           defaultBranch = None\<rparr> \<and>
   (\<exists>k seg. pattern_at (js_trim '' https://github.com/own/repo.git'') k ''own'' seg \<and>
      ''repo'' = js_replace seg ''.git'' []) \<and>
   \<not> sublist ''.git'' ''repo'' \<and> js_replace ''repo'' ''.git'' [] = ''repo'' \<and>
   js_replace (''repo'' @ ''.git'') ''.git'' [] = ''repo'' \<and>
   sublist ''.git'' ''a.github'' \<and>
   (\<exists>a b. ''a.github'' = a @ ''.git'' @ b \<and> js_replace ''a.github'' ''.git'' [] = a @ b)"
proof -
  let ?u = "'' https://github.com/own/repo.git''"
  let ?r = "\<lparr>owner = ''own'', name = ''repo'', url = ''https://github.com/own/repo.git'',
           defaultBranch = None\<rparr>"
  have h1: "parseGithubUrl ?u = Some ?r" by code_simp
  have h2: "\<not> sublist ''.git'' ''repo''" by code_simp
  have h3: "sublist ''.git'' ''a.github''" by code_simp
  note t1 = parseGithubUrl_pattern[of ?u ?r "''repo''" "''repo''"]
  note t2 = parseGithubUrl_pattern[of ?u ?r "''a.github''" "''repo''"]
  from t1 h1 have "\<exists>k seg. pattern_at (js_trim ?u) k (owner ?r) seg \<and>
      name ?r = js_replace seg ''.git'' []" by blast
  then have c2: "\<exists>k seg. pattern_at (js_trim ?u) k ''own'' seg \<and>
      ''repo'' = js_replace seg ''.git'' []" by simp
  from t1 h2 have c3: "js_replace ''repo'' ''.git'' [] = ''repo''" by blast
  from t1 h2 have c4: "js_replace (''repo'' @ ''.git'') ''.git'' [] = ''repo''" by blast
  from t2 h3 have c5: "\<exists>a b. ''a.github'' = a @ ''.git'' @ b \<and>
      js_replace ''a.github'' ''.git'' [] = a @ b" by blast
  have "regex_match ''not a repository address'' = None" by code_simp
  then have h0: "\<not> (\<exists>k g1 g2. pattern_at ''not a repository address'' k g1 g2)"
    using regex_match_None_iff by blast
  from parseGithubUrl_pattern[of "''not a repository address''" ?r "''repo''" "''repo''"] h0
  have c0: "parseGithubUrl ''not a repository address'' = None" by blast
  from c0 h1 c2 h2 c3 c4 h3 c5 show ?thesis by blast
qed

text \<open>
  Read on the string itself the pattern does not decide the result. A second segment
  that is a single space is removed by the trimming, so the string holds the pattern
  and the result is null; and white space that ends the second segment is not part of
  the name.
\<close>

theorem parseGithubUrl_untrimmed_pattern:
  "pattern_at ''github.com/a/ '' 0 ''a'' '' '' \<and>
   parseGithubUrl ''github.com/a/ '' = None \<and>
   pattern_at ''github.com/a/b '' 0 ''a'' ''b '' \<and>
   parseGithubUrl ''github.com/a/b '' =
     Some \<lparr>owner = ''a'', name = ''b'', url = ''github.com/a/b'', defaultBranch = None\<rparr>"
proof -
  have p1: "pattern_at ''github.com/a/ '' 0 ''a'' '' ''"
    by (simp add: pattern_at_def)
  have p2: "pattern_at ''github.com/a/b '' 0 ''a'' ''b ''"
    by (simp add: pattern_at_def)
  have r1: "parseGithubUrl ''github.com/a/ '' = None" by code_simp
  have r2: "parseGithubUrl ''github.com/a/b '' =
     Some \<lparr>owner = ''a'', name = ''b'', url = ''github.com/a/b'', defaultBranch = None\<rparr>"
    by code_simp
  from p1 r1 p2 r2 show ?thesis by (intro conjI)
qed
section \<open>The file selector\<close>

lemma insert_by_insort_key:
  fixes f :: "'a \<Rightarrow> int"
  shows "insert_by (\<lambda>a b. f b - f a) x xs = insort_key (\<lambda>a. - f a) x xs"
  by (induction xs) auto

lemma js_sort_sort_key:
  fixes f :: "'a \<Rightarrow> int"
  shows "js_sort (\<lambda>a b. f b - f a) xs = sort_key (\<lambda>a. - f a) xs"
proof -
  have "insert_by (\<lambda>a b. f b - f a) = insort_key (\<lambda>a. - f a)"
    by (intro ext) (rule insert_by_insort_key)
  then show ?thesis by (simp add: js_sort_def sort_key_def)
qed

lemma sortedFiles_sort_key:
  "sortedFiles tree = sort_key (\<lambda>a. - scoreFile (item_path a)) (allFiles tree)"
  unfolding sortedFiles_def by (rule js_sort_sort_key)

lemma sortedFiles_descending:
  "sorted_wrt (\<lambda>a b. scoreFile (item_path b) \<le> scoreFile (item_path a)) (sortedFiles tree)"
proof -
  have "sorted (map (\<lambda>a. - scoreFile (item_path a)) (sortedFiles tree))"
    unfolding sortedFiles_sort_key by (rule sorted_sort_key)
  then show ?thesis by (simp add: sorted_map)
qed

lemma sortedFiles_stable:
  "filter (\<lambda>f. scoreFile (item_path f) = k) (sortedFiles tree) =
   filter (\<lambda>f. scoreFile (item_path f) = k) (allFiles tree)"
proof -
  have "filter (\<lambda>f. - scoreFile (item_path f) = - k) (sortedFiles tree) =
        filter (\<lambda>f. - scoreFile (item_path f) = - k) (allFiles tree)"
    unfolding sortedFiles_sort_key by (rule sort_key_stable)
  then show ?thesis by simp
qed

lemma mset_sortedFiles: "mset (sortedFiles tree) = mset (allFiles tree)"
  by (simp add: sortedFiles_sort_key)

lemma sortedFiles_unique:
  assumes m: "mset ys = mset (allFiles tree)"
    and s: "sorted_wrt (\<lambda>a b. scoreFile (item_path b) \<le> scoreFile (item_path a)) ys"
    and st: "\<forall>k. filter (\<lambda>f. scoreFile (item_path f) = k) ys =
                 filter (\<lambda>f. scoreFile (item_path f) = k) (allFiles tree)"
  shows "ys = sortedFiles tree"
proof -
  let ?key = "\<lambda>a. - scoreFile (item_path a)"
  have "sort_key ?key (allFiles tree) = ys"
  proof (rule properties_for_sort_key)
    show "mset ys = mset (allFiles tree)" by (rule m)
    show "sorted (map ?key ys)" using s by (simp add: sorted_map)
    fix k assume "k \<in> set ys"
    have "filter (\<lambda>x. ?key k = ?key x) ys =
          filter (\<lambda>f. scoreFile (item_path f) = scoreFile (item_path k)) ys"
      by (rule filter_cong) auto
    also have "\<dots> = filter (\<lambda>f. scoreFile (item_path f) = scoreFile (item_path k)) (allFiles tree)"
      using st by blast
    also have "\<dots> = filter (\<lambda>x. ?key k = ?key x) (allFiles tree)"
      by (rule filter_cong) auto
    finally show "filter (\<lambda>x. ?key k = ?key x) ys = filter (\<lambda>x. ?key k = ?key x) (allFiles tree)" .
  qed
  then show ?thesis by (simp add: sortedFiles_sort_key)
qed

lemma length_js_split: "length (js_split p c) = Suc (count_list p c)"
  by (induction p) (auto split: list.splits)

lemma js_split_not_Nil: "js_split p c \<noteq> []"
  using length_js_split[of p c] by auto

lemma scoreFile_additive:
  "scoreFile p =
     (if prefix ''src/'' p then 10 else 0) + (if prefix ''app/'' p then 10 else 0) +
     (if prefix ''lib/'' p then 8 else 0) + (if sublist ''main'' p then 5 else 0) +
     (if sublist ''index'' p then 5 else 0) + (if sublist ''server'' p then 5 else 0) +
     (if sublist ''App'' p then 5 else 0) + (if count_list p CHR ''/'' < 2 then 2 else 0)"
  unfolding scoreFile_def Let_def js_startsWith_prefix js_includes_sublist length_js_split
  by simp

lemma set_sortedFiles: "set (sortedFiles tree) = set (allFiles tree)"
  by (simp add: sortedFiles_sort_key)

lemma set_topFiles: "set (topFiles tree) \<subseteq> set (allFiles tree)"
  unfolding topFiles_def using set_take_subset[of 12 "sortedFiles tree"]
  by (simp add: set_sortedFiles)

lemma length_topFiles: "length (topFiles tree) \<le> 12"
  by (simp add: topFiles_def)

lemma allFiles_not_excluded:
  assumes "item \<in> set (allFiles tree)" and "p \<in> set excludePatterns"
  shows "\<not> sublist p (item_path item)"
proof -
  from assms(1) have "isInteresting item" by (simp add: allFiles_def)
  then have "\<not> list_ex (\<lambda>p. js_includes (item_path item) p) excludePatterns"
    unfolding isInteresting_def by (auto split: if_splits)
  with assms(2) show ?thesis
    by (auto simp: list_ex_iff js_includes_sublist)
qed

lemma allFiles_blob: "item \<in> set (allFiles tree) \<Longrightarrow> item_type item = ''blob''"
  unfolding allFiles_def isInteresting_def by (auto split: if_splits)

lemma fetchTopRepoFiles_Inr:
  assumes "fetchTopRepoFiles gh repo = Inr out"
  shows "out = [] \<or>
         (\<exists>tree. out = filter (\<lambda>f. excerpt f \<noteq> ''(Read failed)'')
                          (map (readExcerpt gh repo) (topFiles tree)))"
  using assms unfolding fetchTopRepoFiles_def Let_def
  by (auto split: option.splits if_splits sum.splits)

lemma path_readExcerpt: "path (readExcerpt gh repo file) = item_path file"
  by (simp add: readExcerpt_def Let_def split: sum.splits)

lemma excerpt_readExcerpt:
  assumes "excerpt (readExcerpt gh repo file) \<noteq> ''(Read failed)''"
  shows "\<exists>rawContent. fetchRawContent gh repo (item_path file) = Inr rawContent \<and>
           excerpt (readExcerpt gh repo file) =
             (if 500 < length rawContent then take 500 rawContent @ ''... [truncated]''
              else rawContent)"
  using assms
  by (auto simp: readExcerpt_def Let_def substring_def split: sum.splits)

lemma fetchTopRepoFiles_length:
  assumes "fetchTopRepoFiles gh repo = Inr out"
  shows "length out \<le> 12"
proof -
  from fetchTopRepoFiles_Inr[OF assms] show ?thesis
  proof
    assume "out = []" then show ?thesis by simp
  next
    assume "\<exists>tree. out = filter (\<lambda>f. excerpt f \<noteq> ''(Read failed)'')
                          (map (readExcerpt gh repo) (topFiles tree))"
    then obtain tree where "out = filter (\<lambda>f. excerpt f \<noteq> ''(Read failed)'')
                          (map (readExcerpt gh repo) (topFiles tree))" ..
    then have "length out \<le> length (map (readExcerpt gh repo) (topFiles tree))"
      by (simp only: length_filter_le)
    also have "\<dots> \<le> 12" by (simp add: length_topFiles)
    finally show ?thesis .
  qed
qed

lemma fetchTopRepoFiles_member:
  assumes "fetchTopRepoFiles gh repo = Inr out" and "x \<in> set out"
  shows "\<exists>tree file. file \<in> set (topFiles tree) \<and> x = readExcerpt gh repo file \<and>
           excerpt x \<noteq> ''(Read failed)''"
proof -
  from fetchTopRepoFiles_Inr[OF assms(1)] assms(2)
  have "\<exists>tree. out = filter (\<lambda>f. excerpt f \<noteq> ''(Read failed)'')
                          (map (readExcerpt gh repo) (topFiles tree))"
    by auto
  then obtain tree where o: "out = filter (\<lambda>f. excerpt f \<noteq> ''(Read failed)'')
                          (map (readExcerpt gh repo) (topFiles tree))" ..
  from assms(2) have "x \<in> readExcerpt gh repo ` set (topFiles tree)"
    and e: "excerpt x \<noteq> ''(Read failed)''"
    unfolding o by simp_all
  then obtain item where "item \<in> set (topFiles tree)" "x = readExcerpt gh repo item"
    by blast
  with e show ?thesis by blast
qed

text \<open>
  C5. The eligible candidates are ordered by descending score, where the score is the
  sum of: 10 for a path starting with \<^verbatim>\<open>src/\<close>, 10 for \<^verbatim>\<open>app/\<close>, 8 for
  \<^verbatim>\<open>lib/\<close>, 5 each for a path containing \<^verbatim>\<open>main\<close>, \<^verbatim>\<open>index\<close>,
  \<^verbatim>\<open>server\<close>, \<^verbatim>\<open>App\<close>, and 2 for fewer than three segments (fewer than two
  slashes). Candidates of equal score keep the order of the tree, the sorted list holds
  exactly the eligible candidates, and the selection is its first 12. The order is
  determined by the input: any arrangement of the eligible candidates that is
  descending by score and keeps the tree order within each score is the one returned.
\<close>

theorem sortedFiles_by_score:
  "scoreFile p =
     (if prefix ''src/'' p then 10 else 0) + (if prefix ''app/'' p then 10 else 0) +
     (if prefix ''lib/'' p then 8 else 0) + (if sublist ''main'' p then 5 else 0) +
     (if sublist ''index'' p then 5 else 0) + (if sublist ''server'' p then 5 else 0) +
     (if sublist ''App'' p then 5 else 0) + (if count_list p CHR ''/'' < 2 then 2 else 0) \<and>
   sorted_wrt (\<lambda>a b. scoreFile (item_path b) \<le> scoreFile (item_path a)) (sortedFiles tree) \<and>
   (\<forall>k. filter (\<lambda>f. scoreFile (item_path f) = k) (sortedFiles tree) =
        filter (\<lambda>f. scoreFile (item_path f) = k) (allFiles tree)) \<and>
   mset (sortedFiles tree) = mset (allFiles tree) \<and>
   topFiles tree = take 12 (sortedFiles tree) \<and>
   (mset ys = mset (allFiles tree) \<and>
    sorted_wrt (\<lambda>a b. scoreFile (item_path b) \<le> scoreFile (item_path a)) ys \<and>
    (\<forall>k. filter (\<lambda>f. scoreFile (item_path f) = k) ys =
         filter (\<lambda>f. scoreFile (item_path f) = k) (allFiles tree))
    \<longrightarrow> ys = sortedFiles tree)"
proof (intro conjI impI allI)
  show "scoreFile p =
     (if prefix ''src/'' p then 10 else 0) + (if prefix ''app/'' p then 10 else 0) +
     (if prefix ''lib/'' p then 8 else 0) + (if sublist ''main'' p then 5 else 0) +
     (if sublist ''index'' p then 5 else 0) + (if sublist ''server'' p then 5 else 0) +
     (if sublist ''App'' p then 5 else 0) + (if count_list p CHR ''/'' < 2 then 2 else 0)"
    by (rule scoreFile_additive)
next
  show "sorted_wrt (\<lambda>a b. scoreFile (item_path b) \<le> scoreFile (item_path a)) (sortedFiles tree)"
    by (rule sortedFiles_descending)
next
  fix k
  show "filter (\<lambda>f. scoreFile (item_path f) = k) (sortedFiles tree) =
        filter (\<lambda>f. scoreFile (item_path f) = k) (allFiles tree)"
    by (rule sortedFiles_stable)
next
  show "mset (sortedFiles tree) = mset (allFiles tree)" by (rule mset_sortedFiles)
next
  show "topFiles tree = take 12 (sortedFiles tree)" by (rule topFiles_def)
next
  assume "mset ys = mset (allFiles tree) \<and>
    sorted_wrt (\<lambda>a b. scoreFile (item_path b) \<le> scoreFile (item_path a)) ys \<and>
    (\<forall>k. filter (\<lambda>f. scoreFile (item_path f) = k) ys =
         filter (\<lambda>f. scoreFile (item_path f) = k) (allFiles tree))"
  then show "ys = sortedFiles tree" using sortedFiles_unique by blast
qed

theorem sortedFiles_by_score_witness:
  "mset ranked5 = mset (allFiles tree5) \<and>
   sorted_wrt (\<lambda>a b. scoreFile (item_path b) \<le> scoreFile (item_path a)) ranked5 \<and>
   (\<forall>k. filter (\<lambda>f. scoreFile (item_path f) = k) ranked5 =
        filter (\<lambda>f. scoreFile (item_path f) = k) (allFiles tree5)) \<and>
   ranked5 = sortedFiles tree5"
proof -
  have a: "allFiles tree5 = [tree5 ! 0, tree5 ! 2, tree5 ! 5]" by code_simp
  have sc: "scoreFile ''README.md'' = 2" "scoreFile ''CHANGES.md'' = 2"
    "scoreFile ''src/index.ts'' = 17"
    by code_simp+
  have m: "mset ranked5 = mset (allFiles tree5)"
    unfolding a by (simp add: ranked5_def tree5_def)
  have s: "sorted_wrt (\<lambda>a b. scoreFile (item_path b) \<le> scoreFile (item_path a)) ranked5"
    by code_simp
  have f: "\<forall>k. filter (\<lambda>f. scoreFile (item_path f) = k) ranked5 =
         filter (\<lambda>f. scoreFile (item_path f) = k) (allFiles tree5)"
    unfolding a by (simp add: ranked5_def tree5_def sc)
  from sortedFiles_by_score[of "[]" tree5 ranked5] m s f show ?thesis by blast
qed

text \<open>
  C6. For every tree listing the selection holds at most 12 files, and so does the list
  of excerpts \<open>fetchTopRepoFiles\<close> returns, also when more than 12 entries are
  eligible.
\<close>

theorem fetchTopRepoFiles_at_most_12:
  "length (topFiles tree) \<le> 12 \<and>
   (fetchTopRepoFiles gh repo = Inr out \<longrightarrow> length out \<le> 12)"
  using length_topFiles fetchTopRepoFiles_length by blast

theorem fetchTopRepoFiles_at_most_12_witness:
  "length (allFiles files13) = 13 \<and> length (topFiles files13) \<le> 12 \<and>
   (\<exists>out. fetchTopRepoFiles gh13 repo0 = Inr out \<and> length out \<le> 12)"
proof -
  have a: "length (allFiles files13) = 13" by code_simp
  have "case fetchTopRepoFiles gh13 repo0 of Inr out \<Rightarrow> True | Inl e \<Rightarrow> False"
    by code_simp
  then obtain out where o: "fetchTopRepoFiles gh13 repo0 = Inr out"
    by (auto split: sum.splits)
  from fetchTopRepoFiles_at_most_12[of files13 gh13 repo0 out] a o
  show ?thesis by blast
qed

text \<open>
  C7. A tree entry whose path contains one of the excluded substrings
  (\<^verbatim>\<open>node_modules\<close>, \<^verbatim>\<open>dist\<close>, \<^verbatim>\<open>build\<close>, \<^verbatim>\<open>coverage\<close>,
  \<^verbatim>\<open>package-lock.json\<close>, \<^verbatim>\<open>yarn.lock\<close>, the image extensions, \<^verbatim>\<open>.git/\<close>) is
  never selected, whatever its score, and no excerpt returned by \<open>fetchTopRepoFiles\<close>
  has its path.
\<close>

theorem excluded_never_selected:
  assumes "p \<in> set [''node_modules'', ''dist'', ''build'', ''coverage'', ''package-lock.json'',
                    ''yarn.lock'', ''.png'', ''.jpg'', ''.jpeg'', ''.gif'', ''.svg'', ''.ico'',
                    ''.git/'']"
    and "sublist p (item_path item)"
  shows "item \<notin> set (topFiles tree) \<and>
         (fetchTopRepoFiles gh repo = Inr out \<longrightarrow> item_path item \<notin> path ` set out)"
proof -
  from assms(1) have p: "p \<in> set excludePatterns" by (simp add: excludePatterns_def)
  have sel: "\<not> sublist p (item_path f)" if "f \<in> set (topFiles t)" for f t
    using that set_topFiles[of t] allFiles_not_excluded[OF _ p] by blast
  have "item \<notin> set (topFiles tree)" using sel assms(2) by blast
  moreover have "item_path item \<notin> path ` set out" if o: "fetchTopRepoFiles gh repo = Inr out"
  proof
    assume "item_path item \<in> path ` set out"
    then obtain x where x: "x \<in> set out" "path x = item_path item" by auto
    from fetchTopRepoFiles_member[OF o x(1)] obtain t f where
      "f \<in> set (topFiles t)" "x = readExcerpt gh repo f" by blast
    with x(2) sel[of f t] assms(2) show False by (simp add: path_readExcerpt)
  qed
  ultimately show ?thesis by blast
qed

theorem excluded_never_selected_witness:
  "''node_modules'' \<in> set [''node_modules'', ''dist'', ''build'', ''coverage'', ''package-lock.json'',
                    ''yarn.lock'', ''.png'', ''.jpg'', ''.jpeg'', ''.gif'', ''.svg'', ''.ico'',
                    ''.git/''] \<and>
   sublist ''node_modules'' (item_path (tree5 ! 3)) \<and> tree5 ! 3 \<in> set tree5 \<and>
   tree5 ! 3 \<notin> set (topFiles tree5) \<and>
   (\<exists>out. fetchTopRepoFiles gh5 repo0 = Inr out \<and> item_path (tree5 ! 3) \<notin> path ` set out)"
proof -
  have m: "''node_modules'' \<in> set [''node_modules'', ''dist'', ''build'', ''coverage'', ''package-lock.json'',
                    ''yarn.lock'', ''.png'', ''.jpg'', ''.jpeg'', ''.gif'', ''.svg'', ''.ico'',
                    ''.git/'']" by simp
  have s: "sublist ''node_modules'' (item_path (tree5 ! 3))" by code_simp
  have i: "tree5 ! 3 \<in> set tree5" by (simp add: tree5_def)
  have "case fetchTopRepoFiles gh5 repo0 of Inr out \<Rightarrow> True | Inl e \<Rightarrow> False"
    by code_simp
  then obtain out where o: "fetchTopRepoFiles gh5 repo0 = Inr out"
    by (auto split: sum.splits)
  from excluded_never_selected[OF m s, of tree5 gh5 repo0 out] m s i o
  show ?thesis by blast
qed

text \<open>
  C9. Every broad-scan excerpt returned by \<open>fetchTopRepoFiles\<close> holds at most the first
  500 code units of the fetched content: it is the content itself when that has at
  most 500, and otherwise its first 500 followed by the marker
  \<^verbatim>\<open>... [truncated]\<close>. Every excerpt of \<open>fetchDependencyFiles\<close> is the first 3000 code
  units of the content, so at most 3000 long.
\<close>

theorem excerpts_bounded:
  "(fetchTopRepoFiles gh repo = Inr out \<longrightarrow>
      (\<forall>x\<in>set out. \<exists>rawContent.
          fetchRawContent gh repo (path x) = Inr rawContent \<and>
          excerpt x = (if 500 < length rawContent
                       then take 500 rawContent @ ''... [truncated]'' else rawContent) \<and>
          length (excerpt x) \<le> 500 + length ''... [truncated]'')) \<and>
   (\<forall>x\<in>set (fetchDependencyFiles gh repo).
      excerpt x = take 3000 (fetchFullFileContent gh repo (path x)) \<and>
      length (excerpt x) \<le> 3000)"
proof -
  have top: "\<exists>rawContent.
          fetchRawContent gh repo (path x) = Inr rawContent \<and>
          excerpt x = (if 500 < length rawContent
                       then take 500 rawContent @ ''... [truncated]'' else rawContent) \<and>
          length (excerpt x) \<le> 500 + length ''... [truncated]''"
    if o: "fetchTopRepoFiles gh repo = Inr out" and x: "x \<in> set out" for x
  proof -
    from fetchTopRepoFiles_member[OF o x] obtain f where
      f: "x = readExcerpt gh repo f" "excerpt x \<noteq> ''(Read failed)''" by blast
    from excerpt_readExcerpt[of gh repo f] f obtain rawContent where
      r: "fetchRawContent gh repo (item_path f) = Inr rawContent"
         "excerpt x = (if 500 < length rawContent
                         then take 500 rawContent @ ''... [truncated]'' else rawContent)"
      by auto
    have "length (excerpt x) \<le> 500 + length ''... [truncated]''"
      unfolding r(2) by simp
    with r f(1) show ?thesis by (auto simp: path_readExcerpt)
  qed
  have deps: "excerpt x = take 3000 (fetchFullFileContent gh repo (path x)) \<and>
      length (excerpt x) \<le> 3000"
    if "x \<in> set (fetchDependencyFiles gh repo)" for x
  proof -
    from that obtain target where "dependencyFile gh repo target = Some x"
      by (auto simp: fetchDependencyFiles_def Let_def split: option.splits)
    then have "excerpt x = take 3000 (fetchFullFileContent gh repo (path x))"
      by (auto simp: dependencyFile_def Let_def substring_from_0 split: if_splits)
    then show ?thesis by simp
  qed
  from top deps show ?thesis by blast
qed

theorem excerpts_bounded_witness:
  "(\<exists>out x. fetchTopRepoFiles gh5 repo0 = Inr out \<and> x \<in> set out \<and>
      (\<exists>rawContent.
          fetchRawContent gh5 repo0 (path x) = Inr rawContent \<and>
          excerpt x = (if 500 < length rawContent
                       then take 500 rawContent @ ''... [truncated]'' else rawContent) \<and>
          length (excerpt x) \<le> 500 + length ''... [truncated]'')) \<and>
   (\<exists>x. x \<in> set (fetchDependencyFiles gh5 repo0) \<and>
      excerpt x = take 3000 (fetchFullFileContent gh5 repo0 (path x)) \<and>
      length (excerpt x) \<le> 3000) \<and>
   (case fetchTopRepoFiles gh5 repo0 of
      Inr out \<Rightarrow> map (\<lambda>x. length (excerpt x)) out = [515, 515, 515]
    | Inl e \<Rightarrow> False) \<and>
   map (\<lambda>x. (length (excerpt x), size_field x)) (fetchDependencyFiles gh5 repo0) =
     [(3000, 3001)]"
proof -
  have e1: "case fetchTopRepoFiles gh5 repo0 of
      Inr out \<Rightarrow> map (\<lambda>x. length (excerpt x)) out = [515, 515, 515]
    | Inl e \<Rightarrow> False"
    by code_simp
  then obtain out where o: "fetchTopRepoFiles gh5 repo0 = Inr out" and "out \<noteq> []"
    by (auto split: sum.splits)
  then obtain x where x: "x \<in> set out" by (cases out) auto
  have e2: "map (\<lambda>x. (length (excerpt x), size_field x)) (fetchDependencyFiles gh5 repo0) =
     [(3000, 3001)]"
    by (simp add: fetchDependencyFiles_def targets_def dependencyFile_def
        fetchFullFileContent_def Let_def gh5_def repo0_def fetchJson_def decode_content_def
        js_endsWith_def GITHUB_API_BASE_def substring_from_0)
  then obtain y where y: "y \<in> set (fetchDependencyFiles gh5 repo0)"
    by (cases "fetchDependencyFiles gh5 repo0") auto
  from excerpts_bounded[of gh5 repo0 out] o x y e1 e2 show ?thesis by blast
qed

section \<open>The symbol aggregator\<close>

lemma substring_window:
  "i \<le> length s \<Longrightarrow> substring s i (min (i + w) (length s)) = take w (drop i s)"
  by (simp add: substring_def min_def)

lemma chunk_loop_windows:
  "chunk_loop i s acc =
     acc @ map (\<lambda>k. take CHUNK_SIZE (drop (i + 2000 * k) s))
             [0..<(length s - i + 1999) div 2000]"
proof (induction i s acc rule: chunk_loop.induct)
  case (1 i s acc)
  show ?case
  proof (cases "i < length s")
    case True
    let ?m = "(length s - (i + 2000) + 1999) div 2000"
    have cnt: "(length s - i + 1999) div 2000 = Suc ?m"
      using True by (cases "i + 2000 \<le> length s") auto
    have "chunk_loop i s acc =
          chunk_loop (i + 2000) s (acc @ [substring s i (min (i + CHUNK_SIZE) (length s))])"
      using True by (subst chunk_loop.simps) simp
    also have "\<dots> = (acc @ [substring s i (min (i + CHUNK_SIZE) (length s))]) @
          map (\<lambda>k. take CHUNK_SIZE (drop (i + 2000 + 2000 * k) s)) [0..<?m]"
      using "1.IH"[OF True] by simp
    also have "substring s i (min (i + CHUNK_SIZE) (length s)) = take CHUNK_SIZE (drop i s)"
      using True by (simp add: substring_window)
    also have "(acc @ [take CHUNK_SIZE (drop i s)]) @
          map (\<lambda>k. take CHUNK_SIZE (drop (i + 2000 + 2000 * k) s)) [0..<?m] =
          acc @ map (\<lambda>k. take CHUNK_SIZE (drop (i + 2000 * k) s)) [0..<Suc ?m]"
      by (simp add: map_upt_Suc del: upt_Suc) (simp add: add.assoc)
    finally show ?thesis by (simp only: cnt)
  next
    case False
    then have "(length s - i + 1999) div 2000 = 0" by simp
    with False show ?thesis by (subst chunk_loop.simps) simp
  qed
qed


lemma chunks_from_0:
  "chunk_loop 0 s [] =
     map (\<lambda>k. take 2500 (drop (2000 * k) s)) [0..<(length s + 1999) div 2000]"
  using chunk_loop_windows[of 0 s "[]"] by (simp add: CHUNK_SIZE_def)

lemma chunksToProcess_windows:
  "chunksToProcess s =
     map (\<lambda>k. take 2500 (drop (2000 * k) s)) [0..<min 3 ((length s + 1999) div 2000)]"
proof -
  have "take 3 [0..<(length s + 1999) div 2000] = [0..<min 3 ((length s + 1999) div 2000)]"
    by (cases "3 \<le> (length s + 1999) div 2000") (simp_all add: min_def)
  then show ?thesis
    unfolding chunksToProcess_def chunks_from_0 by (simp add: take_map)
qed

lemma enumerate_map_upt:
  "enumerate 0 (map f [0..<n]) = map (\<lambda>k. (k, f k)) [0..<n]"
  by (simp add: enumerate_eq_zip zip_map2 zip_same_conv_map)

lemma chunkPromises_windows:
  "chunkPromises ai p s =
     map (\<lambda>k. extractChunk ai p (take 2500 (drop (2000 * k) s)) k)
       [0..<min 3 ((length s + 1999) div 2000)]"
  unfolding chunkPromises_def chunksToProcess_windows enumerate_map_upt by simp

lemma chunks_6000:
  assumes "length s = 6000"
  shows "chunk_loop 0 s [] =
           [substring s 0 2500, substring s 2000 4500, substring s 4000 6000]"
proof -
  have "[0..<(length s + 1999) div 2000] = [0, 1, 2]"
    using assms by (simp add: upt_rec)
  then have "chunk_loop 0 s [] =
     [take 2500 s, take 2500 (drop 2000 s), take 2500 (drop 4000 s)]"
    unfolding chunks_from_0 by simp
  moreover have "substring s 0 2500 = take 2500 s" "substring s 2000 4500 = take 2500 (drop 2000 s)"
    "substring s 4000 6000 = take 2500 (drop 4000 s)"
    using assms by (simp_all add: substring_def)
  ultimately show ?thesis by simp
qed

lemma extractChunk_cong:
  assumes "generateContent ai (SymbolsPrompt p (k + 1) c) = generateContent ai' (SymbolsPrompt p (k + 1) c)"
    and "JSON_parse_SymbolDefinitions ai = JSON_parse_SymbolDefinitions ai'"
  shows "extractChunk ai p c k = extractChunk ai' p c k"
  unfolding extractChunk_def assms ..


lemma substring_window_any:
  "substring s i (min (i + w) (length s)) = take w (drop i s)"
  by (cases "i \<le> length s") (simp_all add: substring_def min_def)

lemma analyzeCodeSymbols_cong:
  assumes j: "JSON_parse_SymbolDefinitions ai = JSON_parse_SymbolDefinitions ai'"
    and g: "\<forall>k<3. generateContent ai (SymbolsPrompt p (k + 1) (take 2500 (drop (2000 * k) content))) =
           generateContent ai' (SymbolsPrompt p (k + 1) (take 2500 (drop (2000 * k) content)))"
  shows "analyzeCodeSymbols ai p content = analyzeCodeSymbols ai' p content"
proof -
  have "chunkPromises ai p content = chunkPromises ai' p content"
    unfolding chunkPromises_windows
  proof (rule map_cong[OF refl])
    fix k assume "k \<in> set [0..<min 3 ((length content + 1999) div 2000)]"
    then have "k < 3" by simp
    with g have "generateContent ai (SymbolsPrompt p (k + 1) (take 2500 (drop (2000 * k) content))) =
           generateContent ai' (SymbolsPrompt p (k + 1) (take 2500 (drop (2000 * k) content)))"
      by blast
    then show "extractChunk ai p (take 2500 (drop (2000 * k) content)) k =
          extractChunk ai' p (take 2500 (drop (2000 * k) content)) k"
      using j by (rule extractChunk_cong)
  qed
  then show ?thesis by (simp only: analyzeCodeSymbols_def)
qed

lemma chunksToProcess_6000:
  assumes "length s = 6000"
  shows "chunksToProcess s = [substring s 0 2500, substring s 2000 4500, substring s 4000 6000]"
  unfolding chunksToProcess_def chunks_6000[OF assms] by simp


lemma chunks_substring:
  "chunk_loop 0 content [] =
     map (\<lambda>k. substring content (2000 * k) (min (2000 * k + 2500) (length content)))
       [0..<(length content + 1999) div 2000]"
  by (simp only: substring_window_any chunks_from_0)

text \<open>
  C3. The loop produces one window for each offset 0, 2000, 4000, ... below the length
  of the text, the window at offset \<open>i\<close> being the substring from \<open>i\<close> to
  \<open>min (i + 2500) length\<close>, that is at most 2500 code units from \<open>i\<close> on. Only the
  first three windows are processed: \<open>chunksToProcess\<close> is the first three chunks, one
  extraction is made for each of them, and the result does not depend on what the model
  would answer for any other request. For a text of 6000 code units the windows are
  \<open>[0, 2500)\<close>, \<open>[2000, 4500)\<close> and \<open>[4000, 6000)\<close>.
\<close>

theorem chunks_windows:
  "chunk_loop 0 content [] =
     map (\<lambda>k. substring content (2000 * k) (min (2000 * k + 2500) (length content)))
       [0..<(length content + 1999) div 2000] \<and>
   (\<forall>k. substring content (2000 * k) (min (2000 * k + 2500) (length content)) =
        take 2500 (drop (2000 * k) content)) \<and>
   chunksToProcess content = take 3 (chunk_loop 0 content []) \<and>
   length (chunksToProcess content) \<le> 3 \<and>
   chunkPromises ai p content =
     map (\<lambda>k. extractChunk ai p (take 2500 (drop (2000 * k) content)) k)
       [0..<min 3 ((length content + 1999) div 2000)] \<and>
   (JSON_parse_SymbolDefinitions ai = JSON_parse_SymbolDefinitions ai' \<and>
    (\<forall>k<3. generateContent ai (SymbolsPrompt p (k + 1) (take 2500 (drop (2000 * k) content))) =
           generateContent ai' (SymbolsPrompt p (k + 1) (take 2500 (drop (2000 * k) content))))
    \<longrightarrow> analyzeCodeSymbols ai p content = analyzeCodeSymbols ai' p content) \<and>
   (length content = 6000 \<longrightarrow>
      chunk_loop 0 content [] =
        [substring content 0 2500, substring content 2000 4500, substring content 4000 6000] \<and>
      chunksToProcess content =
        [substring content 0 2500, substring content 2000 4500, substring content 4000 6000])"
proof (intro conjI)
  show "chunk_loop 0 content [] =
     map (\<lambda>k. substring content (2000 * k) (min (2000 * k + 2500) (length content)))
       [0..<(length content + 1999) div 2000]"
    by (rule chunks_substring)
  show "\<forall>k. substring content (2000 * k) (min (2000 * k + 2500) (length content)) =
        take 2500 (drop (2000 * k) content)"
    by (intro allI) (rule substring_window_any)
  show "chunksToProcess content = take 3 (chunk_loop 0 content [])"
    by (rule chunksToProcess_def)
  show "length (chunksToProcess content) \<le> 3"
    by (simp add: chunksToProcess_def)
  show "chunkPromises ai p content =
     map (\<lambda>k. extractChunk ai p (take 2500 (drop (2000 * k) content)) k)
       [0..<min 3 ((length content + 1999) div 2000)]"
    by (rule chunkPromises_windows)
  show "JSON_parse_SymbolDefinitions ai = JSON_parse_SymbolDefinitions ai' \<and>
    (\<forall>k<3. generateContent ai (SymbolsPrompt p (k + 1) (take 2500 (drop (2000 * k) content))) =
           generateContent ai' (SymbolsPrompt p (k + 1) (take 2500 (drop (2000 * k) content))))
    \<longrightarrow> analyzeCodeSymbols ai p content = analyzeCodeSymbols ai' p content"
  proof
    assume "JSON_parse_SymbolDefinitions ai = JSON_parse_SymbolDefinitions ai' \<and>
      (\<forall>k<3. generateContent ai (SymbolsPrompt p (k + 1) (take 2500 (drop (2000 * k) content))) =
           generateContent ai' (SymbolsPrompt p (k + 1) (take 2500 (drop (2000 * k) content))))"
    then show "analyzeCodeSymbols ai p content = analyzeCodeSymbols ai' p content"
      using analyzeCodeSymbols_cong[of ai ai' p content] by (elim conjE)
  qed
  show "length content = 6000 \<longrightarrow>
      chunk_loop 0 content [] =
        [substring content 0 2500, substring content 2000 4500, substring content 4000 6000] \<and>
      chunksToProcess content =
        [substring content 0 2500, substring content 2000 4500, substring content 4000 6000]"
    using chunks_6000[of content] chunksToProcess_6000[of content] by (intro impI conjI)
qed

theorem chunks_windows_witness:
  "length (replicate 6000 CHR ''a'') = 6000 \<and>
   chunksToProcess (replicate 6000 CHR ''a'') =
     [substring (replicate 6000 CHR ''a'') 0 2500, substring (replicate 6000 CHR ''a'') 2000 4500,
      substring (replicate 6000 CHR ''a'') 4000 6000] \<and>
   JSON_parse_SymbolDefinitions ai3 = JSON_parse_SymbolDefinitions ai3' \<and>
   generateContent ai3 (SymbolsPrompt ''p'' 4 (take 2500 (drop 6000 (replicate 8500 CHR ''a'')))) \<noteq>
   generateContent ai3' (SymbolsPrompt ''p'' 4 (take 2500 (drop 6000 (replicate 8500 CHR ''a'')))) \<and>
   analyzeCodeSymbols ai3 ''p'' (replicate 8500 CHR ''a'') =
     analyzeCodeSymbols ai3' ''p'' (replicate 8500 CHR ''a'')"
proof -
  have l: "length (replicate 6000 CHR ''a'') = 6000" by simp
  have j: "JSON_parse_SymbolDefinitions ai3 = JSON_parse_SymbolDefinitions ai3'"
    by (simp add: ai3'_def)
  have g: "\<forall>k<3. generateContent ai3
              (SymbolsPrompt ''p'' (k + 1) (take 2500 (drop (2000 * k) (replicate 8500 CHR ''a'')))) =
            generateContent ai3'
              (SymbolsPrompt ''p'' (k + 1) (take 2500 (drop (2000 * k) (replicate 8500 CHR ''a''))))"
    by (simp add: ai3'_def ai3_def)
  have d: "generateContent ai3 (SymbolsPrompt ''p'' 4 (take 2500 (drop 6000 (replicate 8500 CHR ''a'')))) \<noteq>
   generateContent ai3' (SymbolsPrompt ''p'' 4 (take 2500 (drop 6000 (replicate 8500 CHR ''a''))))"
    by (simp add: ai3'_def ai3_def)
  from chunks_windows[of "replicate 6000 CHR ''a''" ai3 "''p''" ai3'] l
  have a: "chunksToProcess (replicate 6000 CHR ''a'') =
     [substring (replicate 6000 CHR ''a'') 0 2500, substring (replicate 6000 CHR ''a'') 2000 4500,
      substring (replicate 6000 CHR ''a'') 4000 6000]" by blast
  from chunks_windows[of "replicate 8500 CHR ''a''" ai3 "''p''" ai3'] j g
  have b: "analyzeCodeSymbols ai3 ''p'' (replicate 8500 CHR ''a'') =
     analyzeCodeSymbols ai3' ''p'' (replicate 8500 CHR ''a'')" by blast
  from l a j d b show ?thesis by blast
qed

lemma dash_split_unique:
  assumes "CHR ''-'' \<notin> set t1" "CHR ''-'' \<notin> set t2"
    and "s1 @ ''-'' @ t1 = s2 @ ''-'' @ t2"
  shows "s1 = s2 \<and> t1 = t2"
proof -
  from assms(3) have r: "rev t1 @ CHR ''-'' # rev s1 = rev t2 @ CHR ''-'' # rev s2"
    by (metis append.assoc append_Cons append_Nil rev.simps(2) rev_append rev_rev_ident)
  have "takeWhile (\<lambda>c. c \<noteq> CHR ''-'') (rev t1 @ CHR ''-'' # rev s1) = rev t1"
    using assms(1) by (subst takeWhile_tail) (auto simp: takeWhile_eq_all_conv)
  moreover have "takeWhile (\<lambda>c. c \<noteq> CHR ''-'') (rev t2 @ CHR ''-'' # rev s2) = rev t2"
    using assms(2) by (subst takeWhile_tail) (auto simp: takeWhile_eq_all_conv)
  ultimately have "rev t1 = rev t2" using r by simp
  then have "t1 = t2" by simp
  with assms(3) show ?thesis by simp
qed

lemma kind_text_no_dash: "CHR ''-'' \<notin> set (kind_text k)"
  by (cases k) auto

lemma kind_text_inj: "kind_text k = kind_text k' \<Longrightarrow> k = k'"
  by (cases k; cases k') auto

lemma key_of_inj:
  "(key_of s = key_of s') = ((symbol s, kind s) = (symbol s', kind s'))"
proof
  assume "key_of s = key_of s'"
  then have "symbol s = symbol s' \<and> kind_text (kind s) = kind_text (kind s')"
    unfolding key_of_def by (intro dash_split_unique kind_text_no_dash)
  then show "(symbol s, kind s) = (symbol s', kind s')" using kind_text_inj by auto
qed (auto simp: key_of_def)

lemma filter_key_symbol_json: "filter_key (symbol_json s) = Inr (key_of s)"
  by (simp add: filter_key_def symbol_json_def js_property_def template_part_def await_def
      key_of_def)


lemma dedupe_Inr_keys:
  "dedupe seen xs = Inr out \<Longrightarrow> \<forall>v\<in>set xs. \<exists>k. filter_key v = Inr k"
proof (induction xs arbitrary: seen out)
  case Nil
  then show ?case by simp
next
  case (Cons s rest)
  from Cons.prems obtain k where k: "filter_key s = Inr k"
    by (auto split: sum.splits)
  show ?case
  proof (cases "k \<in> seen")
    case True
    with Cons.prems k have "dedupe seen rest = Inr out" by simp
    from Cons.IH[OF this] k show ?thesis by simp
  next
    case False
    with Cons.prems k obtain kept where "dedupe (insert k seen) rest = Inr kept"
      by (auto split: sum.splits)
    from Cons.IH[OF this] k show ?thesis by simp
  qed
qed


lemma dedupe_kept:
  "dedupe seen xs = Inr out \<Longrightarrow>
     filter_key ` set out = filter_key ` set xs - Inr ` seen \<and>
     distinct (map filter_key out) \<and>
     (\<forall>r\<in>set out. find (\<lambda>s. filter_key s = filter_key r) xs = Some r) \<and>
     subseq out xs"
proof (induction xs arbitrary: seen out)
  case Nil
  then show ?case by simp
next
  case (Cons s rest)
  from Cons.prems obtain k where k: "filter_key s = Inr k"
    by (auto split: sum.splits)
  show ?case
  proof (cases "k \<in> seen")
    case True
    with Cons.prems k have d: "dedupe seen rest = Inr out" by simp
    note ih = Cons.IH[OF d]
    have img: "filter_key ` set out = filter_key ` set (s # rest) - Inr ` seen"
      using ih True k by auto
    have fnd: "\<forall>r\<in>set out. find (\<lambda>x. filter_key x = filter_key r) (s # rest) = Some r"
    proof
      fix r assume r: "r \<in> set out"
      with ih have "filter_key r \<notin> Inr ` seen" by blast
      moreover have "filter_key s \<in> Inr ` seen" using True k by simp
      ultimately have "filter_key s \<noteq> filter_key r" by metis
      with ih r show "find (\<lambda>x. filter_key x = filter_key r) (s # rest) = Some r" by simp
    qed
    have "subseq out (s # rest)" using ih by (intro list_emb_Cons) simp
    with ih img fnd show ?thesis by blast
  next
    case False
    with Cons.prems k obtain kept where d: "dedupe (insert k seen) rest = Inr kept"
      and out: "out = s # kept"
      by (auto split: sum.splits)
    note ih = Cons.IH[OF d]
    have notin: "filter_key s \<notin> filter_key ` set kept" using ih k by auto
    have img: "filter_key ` set out = filter_key ` set (s # rest) - Inr ` seen"
      using ih False k unfolding out by auto
    have fnd: "\<forall>r\<in>set out. find (\<lambda>x. filter_key x = filter_key r) (s # rest) = Some r"
    proof
      fix r assume "r \<in> set out"
      then consider "r = s" | "r \<in> set kept" unfolding out by auto
      then show "find (\<lambda>x. filter_key x = filter_key r) (s # rest) = Some r"
      proof cases
        case 1
        then show ?thesis by simp
      next
        case 2
        with notin have "filter_key s \<noteq> filter_key r" by auto
        with ih 2 show ?thesis by simp
      qed
    qed
    have "distinct (map filter_key out)" using ih notin unfolding out by simp
    moreover have "subseq out (s # rest)" using ih unfolding out by simp
    ultimately show ?thesis using img fnd by blast
  qed
qed

lemma filter_key_of_pair:
  "(js_property v ''symbol'', js_property v ''kind'') =
   (js_property w ''symbol'', js_property w ''kind'') \<Longrightarrow> filter_key v = filter_key w"
  by (simp add: filter_key_def)

lemma distinct_map_finer:
  assumes "distinct (map f xs)" and "\<And>x y. g x = g y \<Longrightarrow> f x = f y"
  shows "distinct (map g xs)"
proof -
  from assms(1) have d: "distinct xs" and i: "inj_on f (set xs)"
    by (simp_all add: distinct_map)
  have "inj_on g (set xs)"
  proof (rule inj_onI)
    fix x y assume "x \<in> set xs" "y \<in> set xs" "g x = g y"
    with assms(2) i show "x = y" by (auto dest: inj_onD)
  qed
  with d show ?thesis by (simp add: distinct_map)
qed

lemma find_finer:
  "find P xs = Some r \<Longrightarrow> (\<And>x. Q x \<Longrightarrow> P x) \<Longrightarrow> Q r \<Longrightarrow> find Q xs = Some r"
proof (induction xs)
  case Nil
  then show ?case by simp
next
  case (Cons x xs)
  then show ?case by (cases "P x") auto
qed

lemma dedupe_records:
  "\<exists>ys. dedupe seen (map symbol_json xs) = Inr (map symbol_json ys) \<and>
        key_of ` set ys = key_of ` set xs - seen \<and>
        distinct (map key_of ys) \<and>
        (\<forall>r\<in>set ys. find (\<lambda>s. key_of s = key_of r) xs = Some r) \<and>
        subseq ys xs"
proof (induction xs arbitrary: seen)
  case Nil
  show ?case by (intro exI[of _ "[]"]) simp
next
  case (Cons x xs)
  show ?case
  proof (cases "key_of x \<in> seen")
    case True
    from Cons.IH[of seen] obtain ys where ys:
      "dedupe seen (map symbol_json xs) = Inr (map symbol_json ys)"
      "key_of ` set ys = key_of ` set xs - seen" "distinct (map key_of ys)"
      "\<forall>r\<in>set ys. find (\<lambda>s. key_of s = key_of r) xs = Some r" "subseq ys xs"
      by blast
    have d: "dedupe seen (map symbol_json (x # xs)) = Inr (map symbol_json ys)"
      using True ys(1) by (simp add: filter_key_symbol_json)
    have img: "key_of ` set ys = key_of ` set (x # xs) - seen" using ys(2) True by auto
    have fnd: "\<forall>r\<in>set ys. find (\<lambda>s. key_of s = key_of r) (x # xs) = Some r"
    proof
      fix r assume r: "r \<in> set ys"
      with ys(2) have "key_of r \<notin> seen" by blast
      with True have "key_of x \<noteq> key_of r" by auto
      with ys(4) r show "find (\<lambda>s. key_of s = key_of r) (x # xs) = Some r" by simp
    qed
    have "subseq ys (x # xs)" using ys(5) by (rule list_emb_Cons)
    with d img ys(3) fnd show ?thesis by blast
  next
    case False
    from Cons.IH[of "insert (key_of x) seen"] obtain ys where ys:
      "dedupe (insert (key_of x) seen) (map symbol_json xs) = Inr (map symbol_json ys)"
      "key_of ` set ys = key_of ` set xs - insert (key_of x) seen" "distinct (map key_of ys)"
      "\<forall>r\<in>set ys. find (\<lambda>s. key_of s = key_of r) xs = Some r" "subseq ys xs"
      by blast
    have d: "dedupe seen (map symbol_json (x # xs)) = Inr (map symbol_json (x # ys))"
      using False ys(1) by (simp add: filter_key_symbol_json)
    have notin: "key_of x \<notin> key_of ` set ys" using ys(2) by auto
    have img: "key_of ` set (x # ys) = key_of ` set (x # xs) - seen"
      using ys(2) False by auto
    have fnd: "\<forall>r\<in>set (x # ys). find (\<lambda>s. key_of s = key_of r) (x # xs) = Some r"
    proof
      fix r assume "r \<in> set (x # ys)"
      then consider "r = x" | "r \<in> set ys" by auto
      then show "find (\<lambda>s. key_of s = key_of r) (x # xs) = Some r"
      proof cases
        case 1
        then show ?thesis by simp
      next
        case 2
        with notin have "key_of x \<noteq> key_of r" by auto
        with ys(4) 2 show ?thesis by simp
      qed
    qed
    have "distinct (map key_of (x # ys))" using ys(3) notin by simp
    moreover have "subseq (x # ys) (x # xs)" using ys(5) by simp
    ultimately show ?thesis using d img fnd by blast
  qed
qed


lemma extractChunk_windowSymbols:
  "(\<lambda>r. case r of JArray elements \<Rightarrow> elements | _ \<Rightarrow> [r]) (extractChunk ai p chunk index) =
   windowSymbols ai p index chunk"
  by (auto simp: extractChunk_def windowSymbols_def catching_def await_def no_text_def
      text_of_def split: sum.splits option.splits json.splits)

lemma js_flat_chunkPromises:
  "js_flat (chunkPromises ai p s) =
     concat (map (\<lambda>(index, chunk). windowSymbols ai p index chunk)
               (enumerate 0 (chunksToProcess s)))"
proof -
  have "map (\<lambda>r. case r of JArray elements \<Rightarrow> elements | _ \<Rightarrow> [r]) (chunkPromises ai p s) =
        map (\<lambda>(index, chunk). windowSymbols ai p index chunk) (enumerate 0 (chunksToProcess s))"
    unfolding chunkPromises_def map_map
    by (rule map_cong[OF refl]) (auto simp: extractChunk_windowSymbols)
  then show ?thesis by (simp only: js_flat_def)
qed


lemma analyzeCodeSymbols_flat:
  "analyzeCodeSymbols ai p s = dedupe {} (js_flat (chunkPromises ai p s))"
  by (simp only: analyzeCodeSymbols_def Let_def)



lemma distinct_pairs:
  assumes "distinct (map key_of xs)"
  shows "distinct (map (\<lambda>s. (symbol s, kind s)) xs)"
  using assms by (rule distinct_map_finer) (simp add: key_of_inj)

lemma pairs_image:
  assumes "key_of ` A = key_of ` B"
  shows "(\<lambda>s. (symbol s, kind s)) ` A = (\<lambda>s. (symbol s, kind s)) ` B"
proof -
  have "(\<lambda>s. (symbol s, kind s)) ` X \<subseteq> (\<lambda>s. (symbol s, kind s)) ` Y"
    if "key_of ` X \<subseteq> key_of ` Y" for X Y
  proof
    fix q assume "q \<in> (\<lambda>s. (symbol s, kind s)) ` X"
    then obtain x where x: "x \<in> X" "q = (symbol x, kind x)" by auto
    with that obtain y where "y \<in> Y" "key_of x = key_of y" by auto
    with x key_of_inj[of x y] show "q \<in> (\<lambda>s. (symbol s, kind s)) ` Y" by auto
  qed
  with assms show ?thesis by (simp add: subset_antisym)
qed

lemma windows_4500:
  "enumerate 0 (chunksToProcess (replicate 4500 CHR ''a'')) =
     [(0, replicate 2500 CHR ''a''), (1, replicate 2500 CHR ''a''), (2, replicate 500 CHR ''a'')]"
  by (simp add: chunksToProcess_windows upt_rec enumerate_eq_zip)

text \<open>
  C2. In the list \<open>analyzeCodeSymbols\<close> returns no two records share the pair of symbol
  and kind. The list is the merged window results with records removed: every pair of
  the merged results is still present, and the record kept for a pair is the first
  record with that pair in the merged results, in window order, whatever the other
  fields of later records with the pair are. The first half of the theorem is about
  every value the parsed responses can hold, whenever the aggregator returns: the
  returned values are pairwise different in the pair of their \<open>symbol\<close> and \<open>kind\<close>
  properties, each is the first merged value with its pair, and the returned list is a
  subsequence of the merged list. The second half is about merged results that are
  records of the declared shape (\<open>symbol_json\<close>): then the aggregator returns, and the
  records kept cover every pair of the merged records.
\<close>

theorem analyzeCodeSymbols_dedup:
  "(analyzeCodeSymbols ai p content = Inr out \<longrightarrow>
      distinct (map (\<lambda>v. (js_property v ''symbol'', js_property v ''kind'')) out) \<and>
      (\<forall>r\<in>set out.
          find (\<lambda>s. (js_property s ''symbol'', js_property s ''kind'') =
                    (js_property r ''symbol'', js_property r ''kind''))
            (js_flat (chunkPromises ai p content)) = Some r) \<and>
      subseq out (js_flat (chunkPromises ai p content))) \<and>
   (js_flat (chunkPromises ai p content) = map symbol_json merged \<longrightarrow>
      (\<exists>kept. analyzeCodeSymbols ai p content = Inr (map symbol_json kept) \<and>
         distinct (map (\<lambda>s. (symbol s, kind s)) kept) \<and>
         (\<lambda>s. (symbol s, kind s)) ` set kept = (\<lambda>s. (symbol s, kind s)) ` set merged \<and>
         (\<forall>r\<in>set kept.
             find (\<lambda>s. (symbol s, kind s) = (symbol r, kind r)) merged = Some r) \<and>
         subseq kept merged))"
proof (intro conjI impI)
  assume a: "analyzeCodeSymbols ai p content = Inr out"
  then have d: "dedupe {} (js_flat (chunkPromises ai p content)) = Inr out"
    by (simp only: analyzeCodeSymbols_flat)
  note k = dedupe_kept[OF d]
  show "distinct (map (\<lambda>v. (js_property v ''symbol'', js_property v ''kind'')) out)"
  proof (rule distinct_map_finer[of filter_key])
    show "distinct (map filter_key out)" using k by blast
    show "filter_key x = filter_key y"
      if "(js_property x ''symbol'', js_property x ''kind'') =
          (js_property y ''symbol'', js_property y ''kind'')" for x y
      using that by (rule filter_key_of_pair)
  qed
  show "\<forall>r\<in>set out.
          find (\<lambda>s. (js_property s ''symbol'', js_property s ''kind'') =
                    (js_property r ''symbol'', js_property r ''kind''))
            (js_flat (chunkPromises ai p content)) = Some r"
  proof
    fix r assume "r \<in> set out"
    with k have "find (\<lambda>s. filter_key s = filter_key r) (js_flat (chunkPromises ai p content)) =
      Some r" by blast
    then show "find (\<lambda>s. (js_property s ''symbol'', js_property s ''kind'') =
                    (js_property r ''symbol'', js_property r ''kind''))
            (js_flat (chunkPromises ai p content)) = Some r"
    proof (rule find_finer)
      show "filter_key x = filter_key r"
        if "(js_property x ''symbol'', js_property x ''kind'') =
            (js_property r ''symbol'', js_property r ''kind'')" for x
        using that by (rule filter_key_of_pair)
      show "(js_property r ''symbol'', js_property r ''kind'') =
            (js_property r ''symbol'', js_property r ''kind'')" ..
    qed
  qed
  show "subseq out (js_flat (chunkPromises ai p content))" using k by blast
next
  assume m: "js_flat (chunkPromises ai p content) = map symbol_json merged"
  from dedupe_records[of "{}" merged] obtain kept where kept:
    "dedupe {} (map symbol_json merged) = Inr (map symbol_json kept)"
    "key_of ` set kept = key_of ` set merged - {}" "distinct (map key_of kept)"
    "\<forall>r\<in>set kept. find (\<lambda>s. key_of s = key_of r) merged = Some r" "subseq kept merged"
    by blast
  have r: "analyzeCodeSymbols ai p content = Inr (map symbol_json kept)"
    by (simp only: analyzeCodeSymbols_flat m kept(1))
  have d: "distinct (map (\<lambda>s. (symbol s, kind s)) kept)"
    using kept(3) by (rule distinct_pairs)
  have i: "(\<lambda>s. (symbol s, kind s)) ` set kept = (\<lambda>s. (symbol s, kind s)) ` set merged"
    using kept(2) by (intro pairs_image) simp
  have f: "\<forall>r\<in>set kept. find (\<lambda>s. (symbol s, kind s) = (symbol r, kind r)) merged = Some r"
    using kept(4) by (simp only: key_of_inj)
  from r d i f kept(5)
  show "\<exists>kept. analyzeCodeSymbols ai p content = Inr (map symbol_json kept) \<and>
         distinct (map (\<lambda>s. (symbol s, kind s)) kept) \<and>
         (\<lambda>s. (symbol s, kind s)) ` set kept = (\<lambda>s. (symbol s, kind s)) ` set merged \<and>
         (\<forall>r\<in>set kept.
             find (\<lambda>s. (symbol s, kind s) = (symbol r, kind r)) merged = Some r) \<and>
         subseq kept merged"
    by blast
qed



theorem analyzeCodeSymbols_dedup_witness:
  "js_flat (chunkPromises ai4 ''p'' (replicate 4500 CHR ''a'')) =
     map symbol_json [symRun1, symRun3, symJob] \<and>
   analyzeCodeSymbols ai4 ''p'' (replicate 4500 CHR ''a'') =
     Inr (map symbol_json [symRun1, symJob]) \<and>
   distinct (map (\<lambda>v. (js_property v ''symbol'', js_property v ''kind''))
              (map symbol_json [symRun1, symJob])) \<and>
   subseq (map symbol_json [symRun1, symJob])
     (js_flat (chunkPromises ai4 ''p'' (replicate 4500 CHR ''a''))) \<and>
   (\<exists>kept. analyzeCodeSymbols ai4 ''p'' (replicate 4500 CHR ''a'') = Inr (map symbol_json kept) \<and>
      distinct (map (\<lambda>s. (symbol s, kind s)) kept) \<and>
      (\<lambda>s. (symbol s, kind s)) ` set kept =
        (\<lambda>s. (symbol s, kind s)) ` set [symRun1, symRun3, symJob] \<and>
      subseq kept [symRun1, symRun3, symJob]) \<and>
   (symbol symRun3, kind symRun3) = (symbol symRun1, kind symRun1) \<and> symRun3 \<noteq> symRun1"
proof -
  let ?s = "replicate 4500 CHR ''a''"
  have flat: "js_flat (chunkPromises ai4 ''p'' ?s) = map symbol_json [symRun1, symRun3, symJob]"
    unfolding js_flat_chunkPromises windows_4500
    by (simp add: windowSymbols_def ai4_def)
  have run: "analyzeCodeSymbols ai4 ''p'' ?s = Inr (map symbol_json [symRun1, symJob])"
    unfolding analyzeCodeSymbols_flat flat
    by (simp add: filter_key_symbol_json key_of_def symRun1_def symRun3_def symJob_def)
  have same: "(symbol symRun3, kind symRun3) = (symbol symRun1, kind symRun1) \<and> symRun3 \<noteq> symRun1"
    by (simp add: symRun3_def symRun1_def)
  note t = analyzeCodeSymbols_dedup[of ai4 "''p''" ?s "map symbol_json [symRun1, symJob]"
      "[symRun1, symRun3, symJob]"]
  from t run have c1: "distinct (map (\<lambda>v. (js_property v ''symbol'', js_property v ''kind''))
              (map symbol_json [symRun1, symJob]))"
    and c2: "subseq (map symbol_json [symRun1, symJob]) (js_flat (chunkPromises ai4 ''p'' ?s))"
    by blast+
  from t flat have c3: "\<exists>kept. analyzeCodeSymbols ai4 ''p'' ?s = Inr (map symbol_json kept) \<and>
      distinct (map (\<lambda>s. (symbol s, kind s)) kept) \<and>
      (\<lambda>s. (symbol s, kind s)) ` set kept =
        (\<lambda>s. (symbol s, kind s)) ` set [symRun1, symRun3, symJob] \<and>
      subseq kept [symRun1, symRun3, symJob]"
    by blast
  from flat run c1 c2 c3 same show ?thesis by (intro conjI) blast+
qed














section \<open>Stage failures and the cache\<close>

lemma summarizeRepo_failure:
  assumes "structured_failure
             (generateContent ai (SummaryPrompt
                (if length readme > 8000
                 then substring readme 0 8000 @ CHR 0x0A # ''...[Truncated]...'' else readme)))
             (JSON_parse_AnalysisResult ai)"
  shows "summarizeRepo ai readme = Inl (Error ''Failed to analyze the repository content.'')"
  using assms
  by (auto simp: summarizeRepo_def structured_failure_def try_catch_def await_def no_text_def
      text_of_def Let_def isl_def split: sum.splits option.splits if_splits)

lemma analyzeArchitecture_failure:
  assumes "structured_failure (generateContent ai (ArchitecturePrompt fs))
             (JSON_parse_ArchitectureAnalysis ai)"
  shows "analyzeArchitecture ai fs = Inl (Error ''Failed to analyze architecture.'')"
  using assms
  by (auto simp: analyzeArchitecture_def structured_failure_def try_catch_def await_def
      no_text_def text_of_def isl_def split: sum.splits option.splits if_splits)

lemma detectSetup_total: "\<exists>v. detectSetup ai deps = Inr v"
  by (auto simp: detectSetup_def try_catch_def await_def split: sum.splits)

lemma detectSetup_failure:
  assumes "structured_failure (generateContent ai (SetupPrompt deps))
             (JSON_parse_SetupDetection ai)"
  shows "\<exists>note. detectSetup ai deps =
           Inr \<lparr>install = [], test = [], env = [], setup_notes = note,
                setup_confidence = None, setup_evidence = None\<rparr> \<and>
           note \<in> {''No dependency files found.'', ''Failed to parse setup.'',
                    ''Error during detection.''}"
  using assms
  by (auto simp: detectSetup_def structured_failure_def try_catch_def await_def
      no_text_def text_of_def isl_def split: sum.splits option.splits if_splits)

lemma analyzePitfalls_total: "\<exists>v. analyzePitfalls ai fs = Inr v"
  by (auto simp: analyzePitfalls_def try_catch_def await_def split: sum.splits)

lemma analyzePitfalls_failure:
  assumes "structured_failure (generateContent ai (PitfallsPrompt fs))
             (JSON_parse_Pitfalls ai)"
  shows "analyzePitfalls ai fs = Inr []"
  using assms
  by (auto simp: analyzePitfalls_def structured_failure_def try_catch_def await_def
      no_text_def text_of_def isl_def split: sum.splits option.splits if_splits)


lemma freshRun_summary_abort:
  assumes d: "fetchRepoDetails gh r0 = Inr r" and rd: "fetchRepoReadme gh r = Inr readme"
    and s: "summarizeRepo ai readme = Inl (Error m)" and m: "m \<noteq> []"
  shows "currentStep (freshRun gh ai br r0 st) = StepError \<and>
         error_message (freshRun gh ai br r0 st) = Some m \<and>
         analysisResult (freshRun gh ai br r0 st) = None \<and>
         deepScanData (freshRun gh ai br r0 st) = None \<and>
         setupData (freshRun gh ai br r0 st) = None \<and>
         pitfalls (freshRun gh ai br r0 st) = [] \<and>
         wikiMarkdown (freshRun gh ai br r0 st) = [] \<and>
         repoWikiCache (freshRun gh ai br r0 st) = repoWikiCache st"
  using m
  by (simp add: freshRun_def tryBody_def andThen_def setting_def awaiting_def d rd s)

lemma freshRun_architecture_abort:
  assumes d: "fetchRepoDetails gh r0 = Inr r" and rd: "fetchRepoReadme gh r = Inr readme"
    and s: "summarizeRepo ai readme = Inr result"
    and l: "fetchRepoLanguages gh r = Inr langs"
    and f: "fetchTopRepoFiles gh r = Inr fs" and ne: "fs \<noteq> []"
    and ds: "detectSetup ai (fetchDependencyFiles gh r) = Inr setup"
    and pf: "analyzePitfalls ai (take 15 (fetchDependencyFiles gh r @ fs)) = Inr ps"
    and a: "analyzeArchitecture ai fs = Inl (Error m)" and m: "m \<noteq> []"
  shows "currentStep (freshRun gh ai br r0 st) = StepError \<and>
         error_message (freshRun gh ai br r0 st) = Some m \<and>
         setupData (freshRun gh ai br r0 st) = Some setup \<and>
         pitfalls (freshRun gh ai br r0 st) = ps \<and>
         wikiMarkdown (freshRun gh ai br r0 st) = [] \<and>
         repoWikiCache (freshRun gh ai br r0 st) = repoWikiCache st"
  using m ne
  by (simp add: freshRun_def tryBody_def andThen_def setting_def awaiting_def promise_all3_def
      architectStage_def d rd s l f ds pf a del: take_append)

text \<open>
  C1. The specification asks that a cached report whose timestamp is older than one hour
  be treated as absent on the next read, and the source's own comment on the mount
  effect reads \<^verbatim>\<open>Expire after 1 hour\<close>. The code does otherwise. The mount effect
  compares the timestamp with the clock and does nothing in either case, so a stale
  entry stays in the slot; and \<open>handleAnalyze\<close> called with \<^verbatim>\<open>skipCache = false\<close>
  never looks at the timestamp: a saved report for the repository of the address, however
  old, is restored into the visible state with the step \<^verbatim>\<open>complete\<close>, and no fresh
  run is started.
\<close>

theorem handleAnalyze_restores_stale:
  assumes "parseGithubUrl (input_url st) = Some repoInfo"
    and "repoWikiCache st = Some saved" and "saved \<noteq> []"
    and "JSON_parse_Cached br saved = Inr parsed"
    and "name (cached_repoInfo parsed) = name repoInfo"
    and "owner (cached_repoInfo parsed) = owner repoInfo"
    and "3600000 \<le> now br - timestamp parsed"
  shows "loadCacheOnMount br st = st \<and>
         handleAnalyze gh ai br False st =
           Inr (st\<lparr>analysisResult := Some (cached_analysisResult parsed),
                   deepScanData := Some (cached_deepScanData parsed),
                   setupData := Some (cached_setupData parsed),
                   pitfalls := cached_pitfalls parsed,
                   staticAnalysisData := cached_staticAnalysisData parsed,
                   wikiMarkdown := cached_wikiMarkdown parsed,
                   rawReadme := cached_readme parsed,
                   dependencyFiles := cached_dependencyFiles parsed,
                   currentStep := StepComplete,
                   logMessage := ''Restored from Cache''\<rparr>)"
  using assms
  by (simp add: loadCacheOnMount_def handleAnalyze_def Let_def text_of_def)

theorem handleAnalyze_restores_stale_witness:
  "3600000 \<le> now br1 - timestamp report1 \<and>
   loadCacheOnMount br1 st1 = st1 \<and>
   handleAnalyze gh8 ai8 br1 False st1 =
     Inr (st1\<lparr>analysisResult := Some (cached_analysisResult report1),
              deepScanData := Some (cached_deepScanData report1),
              setupData := Some (cached_setupData report1),
              pitfalls := cached_pitfalls report1,
              staticAnalysisData := cached_staticAnalysisData report1,
              wikiMarkdown := cached_wikiMarkdown report1,
              rawReadme := cached_readme report1,
              dependencyFiles := cached_dependencyFiles report1,
              currentStep := StepComplete,
              logMessage := ''Restored from Cache''\<rparr>) \<and>
   cached_wikiMarkdown report1 = ''# old wiki''"
proof -
  have p: "parseGithubUrl (input_url st1) = Some (repo0\<lparr>defaultBranch := None\<rparr>)"
    by (simp add: st1_def st8_def initialState_def repo0_def) code_simp
  have c: "repoWikiCache st1 = Some ''saved report''" "''saved report'' \<noteq> []"
    by (simp_all add: st1_def)
  have j: "JSON_parse_Cached br1 ''saved report'' = Inr report1" by (simp add: br1_def)
  have n: "name (cached_repoInfo report1) = name (repo0\<lparr>defaultBranch := None\<rparr>)"
    "owner (cached_repoInfo report1) = owner (repo0\<lparr>defaultBranch := None\<rparr>)"
    by (simp_all add: report1_def)
  have s: "3600000 \<le> now br1 - timestamp report1" by (simp add: br1_def report1_def)
  have w: "cached_wikiMarkdown report1 = ''# old wiki''" by (simp add: report1_def)
  from handleAnalyze_restores_stale[OF p c j n s, of gh8 ai8] s w
  show ?thesis by blast
qed

text \<open>
  C8. When the model returns no text, or text that does not parse, \<open>detectSetup\<close> and
  \<open>analyzePitfalls\<close> still return a value, as they do in every case: empty command and
  environment lists with a note, and the empty list of pitfalls. \<open>summarizeRepo\<close> and
  \<open>analyzeArchitecture\<close> throw instead, and the throw aborts a run: the run ends in the
  step \<^verbatim>\<open>error\<close> showing the stage's message, no wiki is generated and the cache is
  not written. A run that reaches the architecture stage has a setup result, so the
  failures of the setup and pitfall stages before it did not stop the run.
\<close>

theorem structured_failure_policy:
  "(structured_failure
      (generateContent ai (SummaryPrompt
         (if length readme > 8000
          then substring readme 0 8000 @ CHR 0x0A # ''...[Truncated]...'' else readme)))
      (JSON_parse_AnalysisResult ai) \<longrightarrow>
      summarizeRepo ai readme = Inl (Error ''Failed to analyze the repository content.'') \<and>
      (fetchRepoDetails gh r0 = Inr r \<and> fetchRepoReadme gh r = Inr readme \<longrightarrow>
         currentStep (freshRun gh ai br r0 st) = StepError \<and>
         error_message (freshRun gh ai br r0 st) =
           Some ''Failed to analyze the repository content.'' \<and>
         setupData (freshRun gh ai br r0 st) = None \<and>
         pitfalls (freshRun gh ai br r0 st) = [] \<and>
         wikiMarkdown (freshRun gh ai br r0 st) = [] \<and>
         repoWikiCache (freshRun gh ai br r0 st) = repoWikiCache st)) \<and>
   (structured_failure (generateContent ai (ArchitecturePrompt fs))
      (JSON_parse_ArchitectureAnalysis ai) \<longrightarrow>
      analyzeArchitecture ai fs = Inl (Error ''Failed to analyze architecture.'') \<and>
      (fetchRepoDetails gh r0 = Inr r \<and> fetchRepoReadme gh r = Inr readme \<and>
       summarizeRepo ai readme = Inr result \<and> fetchRepoLanguages gh r = Inr langs \<and>
       fetchTopRepoFiles gh r = Inr fs \<and> fs \<noteq> [] \<longrightarrow>
         currentStep (freshRun gh ai br r0 st) = StepError \<and>
         error_message (freshRun gh ai br r0 st) = Some ''Failed to analyze architecture.'' \<and>
         (\<exists>setup. setupData (freshRun gh ai br r0 st) = Some setup) \<and>
         wikiMarkdown (freshRun gh ai br r0 st) = [] \<and>
         repoWikiCache (freshRun gh ai br r0 st) = repoWikiCache st)) \<and>
   (\<exists>v. detectSetup ai deps = Inr v) \<and>
   (structured_failure (generateContent ai (SetupPrompt deps)) (JSON_parse_SetupDetection ai) \<longrightarrow>
      (\<exists>note. detectSetup ai deps =
                Inr \<lparr>install = [], test = [], env = [], setup_notes = note,
                     setup_confidence = None, setup_evidence = None\<rparr> \<and>
              note \<in> {''No dependency files found.'', ''Failed to parse setup.'',
                       ''Error during detection.''})) \<and>
   (\<exists>v. analyzePitfalls ai ctx = Inr v) \<and>
   (structured_failure (generateContent ai (PitfallsPrompt ctx)) (JSON_parse_Pitfalls ai) \<longrightarrow>
      analyzePitfalls ai ctx = Inr [])"
proof (intro conjI impI)
  assume f: "structured_failure
      (generateContent ai (SummaryPrompt
         (if length readme > 8000
          then substring readme 0 8000 @ CHR 0x0A # ''...[Truncated]...'' else readme)))
      (JSON_parse_AnalysisResult ai)"
  show s: "summarizeRepo ai readme = Inl (Error ''Failed to analyze the repository content.'')"
    using f by (rule summarizeRepo_failure)
  assume "fetchRepoDetails gh r0 = Inr r \<and> fetchRepoReadme gh r = Inr readme"
  then have d: "fetchRepoDetails gh r0 = Inr r" and rd: "fetchRepoReadme gh r = Inr readme"
    by simp_all
  have ab: "currentStep (freshRun gh ai br r0 st) = StepError \<and>
         error_message (freshRun gh ai br r0 st) =
           Some ''Failed to analyze the repository content.'' \<and>
         analysisResult (freshRun gh ai br r0 st) = None \<and>
         deepScanData (freshRun gh ai br r0 st) = None \<and>
         setupData (freshRun gh ai br r0 st) = None \<and>
         pitfalls (freshRun gh ai br r0 st) = [] \<and>
         wikiMarkdown (freshRun gh ai br r0 st) = [] \<and>
         repoWikiCache (freshRun gh ai br r0 st) = repoWikiCache st"
    by (rule freshRun_summary_abort[OF d rd s]) simp
  show "currentStep (freshRun gh ai br r0 st) = StepError" using ab by simp
  show "error_message (freshRun gh ai br r0 st) = Some ''Failed to analyze the repository content.''"
    using ab by simp
  show "setupData (freshRun gh ai br r0 st) = None" using ab by simp
  show "pitfalls (freshRun gh ai br r0 st) = []" using ab by simp
  show "wikiMarkdown (freshRun gh ai br r0 st) = []" using ab by simp
  show "repoWikiCache (freshRun gh ai br r0 st) = repoWikiCache st" using ab by simp
next
  assume f: "structured_failure (generateContent ai (ArchitecturePrompt fs))
      (JSON_parse_ArchitectureAnalysis ai)"
  show a: "analyzeArchitecture ai fs = Inl (Error ''Failed to analyze architecture.'')"
    using f by (rule analyzeArchitecture_failure)
  assume h: "fetchRepoDetails gh r0 = Inr r \<and> fetchRepoReadme gh r = Inr readme \<and>
       summarizeRepo ai readme = Inr result \<and> fetchRepoLanguages gh r = Inr langs \<and>
       fetchTopRepoFiles gh r = Inr fs \<and> fs \<noteq> []"
  obtain sd where ds: "detectSetup ai (fetchDependencyFiles gh r) = Inr sd"
    using detectSetup_total by blast
  obtain ps where pf: "analyzePitfalls ai (take 15 (fetchDependencyFiles gh r @ fs)) = Inr ps"
    using analyzePitfalls_total by blast
  from h have ab: "currentStep (freshRun gh ai br r0 st) = StepError \<and>
         error_message (freshRun gh ai br r0 st) = Some ''Failed to analyze architecture.'' \<and>
         setupData (freshRun gh ai br r0 st) = Some sd \<and>
         pitfalls (freshRun gh ai br r0 st) = ps \<and>
         wikiMarkdown (freshRun gh ai br r0 st) = [] \<and>
         repoWikiCache (freshRun gh ai br r0 st) = repoWikiCache st"
    using freshRun_architecture_abort[of gh r0 r readme ai result langs fs sd ps _ br st,
        OF _ _ _ _ _ _ ds pf a]
    by simp
  show "currentStep (freshRun gh ai br r0 st) = StepError" using ab by simp
  show "error_message (freshRun gh ai br r0 st) = Some ''Failed to analyze architecture.''"
    using ab by simp
  show "\<exists>setup. setupData (freshRun gh ai br r0 st) = Some setup" using ab by blast
  show "wikiMarkdown (freshRun gh ai br r0 st) = []" using ab by simp
  show "repoWikiCache (freshRun gh ai br r0 st) = repoWikiCache st" using ab by simp
next
  show "\<exists>v. detectSetup ai deps = Inr v" by (rule detectSetup_total)
next
  assume "structured_failure (generateContent ai (SetupPrompt deps)) (JSON_parse_SetupDetection ai)"
  then show "\<exists>note. detectSetup ai deps =
                Inr \<lparr>install = [], test = [], env = [], setup_notes = note,
                     setup_confidence = None, setup_evidence = None\<rparr> \<and>
              note \<in> {''No dependency files found.'', ''Failed to parse setup.'',
                       ''Error during detection.''}"
    by (rule detectSetup_failure)
next
  show "\<exists>v. analyzePitfalls ai ctx = Inr v" by (rule analyzePitfalls_total)
next
  assume "structured_failure (generateContent ai (PitfallsPrompt ctx)) (JSON_parse_Pitfalls ai)"
  then show "analyzePitfalls ai ctx = Inr []" by (rule analyzePitfalls_failure)
qed


theorem structured_failure_policy_witness:
  "summarizeRepo ai4 (replicate 3001 CHR ''b'') =
     Inl (Error ''Failed to analyze the repository content.'') \<and>
   currentStep (freshRun gh8 ai4 br1 (repo0\<lparr>defaultBranch := None\<rparr>) st8) = StepError \<and>
   error_message (freshRun gh8 ai4 br1 (repo0\<lparr>defaultBranch := None\<rparr>) st8) =
     Some ''Failed to analyze the repository content.'' \<and>
   setupData (freshRun gh8 ai4 br1 (repo0\<lparr>defaultBranch := None\<rparr>) st8) = None \<and>
   currentStep (freshRun gh8 ai8 br1 (repo0\<lparr>defaultBranch := None\<rparr>) st8) = StepError \<and>
   error_message (freshRun gh8 ai8 br1 (repo0\<lparr>defaultBranch := None\<rparr>) st8) =
     Some ''Failed to analyze architecture.'' \<and>
   (\<exists>sd. setupData (freshRun gh8 ai8 br1 (repo0\<lparr>defaultBranch := None\<rparr>) st8) = Some sd) \<and>
   (\<exists>note. detectSetup ai8 (fetchDependencyFiles gh8 repo0) =
            Inr \<lparr>install = [], test = [], env = [], setup_notes = note,
                 setup_confidence = None, setup_evidence = None\<rparr>) \<and>
   analyzePitfalls ai8 (fetchDependencyFiles gh8 repo0) = Inr []"
proof -
  let ?r0 = "repo0\<lparr>defaultBranch := None\<rparr>"
  let ?readme = "replicate 3001 CHR ''b''"
  let ?deps = "fetchDependencyFiles gh8 repo0"
  have d: "fetchRepoDetails gh8 ?r0 = Inr repo0"
    by (simp add: fetchRepoDetails_def gh8_def fetchJson_def repo0_def)
  have rd: "fetchRepoReadme gh8 repo0 = Inr ?readme"
    by (simp add: fetchRepoReadme_def gh8_def gh5_def fetchJson_def decode_content_def)
  have f4: "structured_failure
      (generateContent ai4 (SummaryPrompt
         (if length ?readme > 8000
          then substring ?readme 0 8000 @ CHR 0x0A # ''...[Truncated]...'' else ?readme)))
      (JSON_parse_AnalysisResult ai4)"
    by (simp add: structured_failure_def ai4_def)
  note t4 = structured_failure_policy[of ai4 ?readme gh8 ?r0 repo0 br1 st8]
  from t4 f4 d rd have c1: "summarizeRepo ai4 ?readme =
     Inl (Error ''Failed to analyze the repository content.'')"
    and c2: "currentStep (freshRun gh8 ai4 br1 ?r0 st8) = StepError"
    and c3: "error_message (freshRun gh8 ai4 br1 ?r0 st8) =
     Some ''Failed to analyze the repository content.''"
    and c4: "setupData (freshRun gh8 ai4 br1 ?r0 st8) = None"
    by blast+
  have "case fetchTopRepoFiles gh8 repo0 of Inr fs \<Rightarrow> fs \<noteq> [] | Inl e \<Rightarrow> False"
    by code_simp
  then obtain fs where fs: "fetchTopRepoFiles gh8 repo0 = Inr fs" "fs \<noteq> []"
    by (auto split: sum.splits)
  have s8: "summarizeRepo ai8 ?readme = Inr \<lparr>summary = ''A tool.'', runtime = ''node''\<rparr>"
    by (simp add: summarizeRepo_def ai8_def ai4_def try_catch_def await_def no_text_def
        text_of_def)
  have l: "fetchRepoLanguages gh8 repo0 = Inr [(''TypeScript'', 100)]"
    by (simp add: fetchRepoLanguages_def gh8_def fetchJson_def)
  have fa: "structured_failure (generateContent ai8 (ArchitecturePrompt fs))
      (JSON_parse_ArchitectureAnalysis ai8)"
    by (simp add: structured_failure_def ai8_def ai4_def)
  have fs8: "structured_failure (generateContent ai8 (SetupPrompt ?deps))
      (JSON_parse_SetupDetection ai8)"
    by (simp add: structured_failure_def ai8_def ai4_def)
  have fp: "structured_failure (generateContent ai8 (PitfallsPrompt ?deps))
      (JSON_parse_Pitfalls ai8)"
    by (simp add: structured_failure_def ai8_def ai4_def)
  note t8 = structured_failure_policy[of ai8 ?readme gh8 ?r0 repo0 br1 st8 fs
      "\<lparr>summary = ''A tool.'', runtime = ''node''\<rparr>" "[(''TypeScript'', 100)]" ?deps ?deps]
  from t8 fa d rd s8 l fs have c5: "currentStep (freshRun gh8 ai8 br1 ?r0 st8) = StepError"
    and c6: "error_message (freshRun gh8 ai8 br1 ?r0 st8) =
     Some ''Failed to analyze architecture.''"
    and c7: "\<exists>sd. setupData (freshRun gh8 ai8 br1 ?r0 st8) = Some sd"
    by blast+
  from t8 fs8 have c8: "\<exists>note. detectSetup ai8 ?deps =
            Inr \<lparr>install = [], test = [], env = [], setup_notes = note,
                 setup_confidence = None, setup_evidence = None\<rparr>"
    by blast
  from t8 fp have c9: "analyzePitfalls ai8 ?deps = Inr []" by blast
  from c1 c2 c3 c4 c5 c6 c7 c8 c9 show ?thesis by (intro conjI)
qed

end
